theory Spec2Isabelle
  imports Main
begin

section \<open>JavaScript values\<close>

text \<open>
  The values that travel through GRest.js: header values, the \<open>authorization\<close> field,
  request bodies, query strings and ids. Numbers are the integers that JavaScript represents
  exactly and prints in decimal notation; a plain object is the list of its own properties.
  Arrays, functions and the other numbers are not needed by the code paths verified here and
  are left out of the value universe.
\<close>

datatype jsval =
    JUndefined
  | JNull
  | JBool bool
  | JNum int
  | JStr string
  | JObj "(string \<times> jsval) list"

text \<open>ToBoolean: what \<open>if (v)\<close>, \<open>!v\<close> and \<open>a || b\<close> test.\<close>

fun truthy :: "jsval \<Rightarrow> bool" where
  "truthy JUndefined = False"
| "truthy JNull = False"
| "truthy (JBool b) = b"
| "truthy (JNum n) = (n \<noteq> 0)"
| "truthy (JStr s) = (s \<noteq> [])"
| "truthy (JObj ps) = True"

text \<open>The \<open>typeof\<close> operator; \<open>typeof null\<close> is \<open>"object"\<close>.\<close>

fun typeof :: "jsval \<Rightarrow> string" where
  "typeof JUndefined = ''undefined''"
| "typeof JNull = ''object''"
| "typeof (JBool b) = ''boolean''"
| "typeof (JNum n) = ''number''"
| "typeof (JStr s) = ''string''"
| "typeof (JObj ps) = ''object''"

text \<open>\<open>a || b\<close>\<close>

definition js_or :: "jsval \<Rightarrow> jsval \<Rightarrow> jsval" where
  "js_or a b = (if truthy a then a else b)"

text \<open>\<open>typeof value == 'undefined' || value == null\<close>: loose equality with \<open>null\<close> holds
  for \<open>null\<close> and \<open>undefined\<close> only.\<close>

definition nullish :: "jsval \<Rightarrow> bool" where
  "nullish v = (typeof v = ''undefined'' \<or> v = JNull \<or> v = JUndefined)"

text \<open>Decimal digits of a natural number, for the string conversion of a number.\<close>

fun digits :: "nat \<Rightarrow> string" where
  "digits n =
     (if n < 10 then [''0123456789'' ! n]
      else digits (n div 10) @ [''0123456789'' ! (n mod 10)])"

declare digits.simps [simp del]

text \<open>ToString, as applied by \<open>url += queryString\<close>.\<close>

fun to_string :: "jsval \<Rightarrow> string" where
  "to_string JUndefined = ''undefined''"
| "to_string JNull = ''null''"
| "to_string (JBool b) = (if b then ''true'' else ''false'')"
| "to_string (JNum n) = (if n < 0 then CHR ''-'' # digits (nat (- n)) else digits (nat n))"
| "to_string (JStr s) = s"
| "to_string (JObj ps) = ''[object Object]''"

section \<open>Strings: the camelCase transform and the URL normalisation\<close>

text \<open>
  Strings are lists of 8-bit characters. The endpoint names and URLs handled here are
  ASCII strings, and on an ASCII string the functions below are what JavaScript computes:
  \<open>toLowerCase\<close> maps \<open>A\<close>..\<open>Z\<close> to \<open>a\<close>..\<open>z\<close> and leaves every other character, \<open>\W\<close> is
  every character outside \<open>[A-Za-z0-9_]\<close>, and \<open>toUpperCase\<close> is applied to the first
  character of a segment of word characters only. Names with characters outside ASCII are
  not covered: JavaScript maps some of them to ASCII letters (\<open>toLowerCase\<close> of U+212A is
  \<open>k\<close>), which a case mapping of the ASCII letters does not do. Every statement about
  \<open>camelCase\<close> below is made at ASCII names.
\<close>

definition lower_letters :: string where
  "lower_letters = ''abcdefghijklmnopqrstuvwxyz''"

definition upper_letters :: string where
  "upper_letters = ''ABCDEFGHIJKLMNOPQRSTUVWXYZ''"

definition lower_char :: "char \<Rightarrow> char" where
  "lower_char c = (case map_of (zip upper_letters lower_letters) c of Some l \<Rightarrow> l | None \<Rightarrow> c)"

definition upper_char :: "char \<Rightarrow> char" where
  "upper_char c = (case map_of (zip lower_letters upper_letters) c of Some u \<Rightarrow> u | None \<Rightarrow> c)"

definition toLowerCase :: "string \<Rightarrow> string" where
  "toLowerCase s = map lower_char s"

definition word_char :: "char \<Rightarrow> bool" where
  "word_char c = (c \<in> set (lower_letters @ upper_letters @ ''0123456789_''))"

text \<open>\<open>s.split(/\W/)\<close>: one cut at every non-word character; never the empty list.\<close>

fun split_W :: "string \<Rightarrow> string list" where
  "split_W [] = [[]]"
| "split_W (c # cs) =
     (if word_char c
      then (case split_W cs of [] \<Rightarrow> [[c]] | s # ss \<Rightarrow> (c # s) # ss)
      else [] # split_W cs)"

text \<open>\<open>e.charAt(0).toUpperCase() + e.slice(1)\<close>\<close>

fun capitalize :: "string \<Rightarrow> string" where
  "capitalize [] = []"
| "capitalize (c # cs) = upper_char c # cs"

text \<open>
  \<open>endpoint.toLowerCase().split(/\W/).map((e, i) => i == 0 ? e : capitalize(e)).join("")\<close>
\<close>

definition camelCase :: "string \<Rightarrow> string" where
  "camelCase endpoint =
     (case split_W (toLowerCase endpoint) of
        [] \<Rightarrow> []
      | e # es \<Rightarrow> e @ concat (map capitalize es))"

text \<open>\<open>url.replace(/[\/]*$/, "/")\<close>: the run of slashes at the end is replaced by one slash.\<close>

definition normalize_url :: "string \<Rightarrow> string" where
  "normalize_url u = rev (dropWhile (\<lambda>c. c = CHR ''/'') (rev u)) @ ''/''"

section \<open>The store, the transport and the observers\<close>

text \<open>
  Plain objects that are shared by reference (the Client's \<open>_headers\<close>, the headers object of
  a request configuration) live in a store: an address maps to the object's own properties,
  and \<open>fresh\<close> is the next unused address. Object identity is the address.
\<close>

type_synonym addr = nat

type_synonym object = "string \<rightharpoonup> jsval"

text \<open>
  The Axios configuration object. \<open>None\<close> is an absent property. \<open>cnf_headers\<close> is a
  reference into the store.
\<close>

record axios_cnf =
  cnf_method :: jsval
  cnf_data :: "jsval option"
  cnf_headers :: "addr option"
  cnf_url :: "string option"
  cnf_params :: "jsval option"
  cnf_endpoint :: "string option"

text \<open>The message observers receive: \<open>{endpoint, method, status}\<close>.\<close>

record obs_msg =
  msg_endpoint :: jsval
  msg_method :: jsval
  msg_status :: "string option"

text \<open>
  Everything outside the objects of GRest.js that the code acts on:
  \<^item> \<open>fresh\<close>, \<open>objs\<close>: the store;
  \<^item> \<open>observers\<close>: the ids of the observers registered with the Client's GObservable part;
  \<^item> \<open>notified\<close>: the messages passed to the Client's \<open>notify\<close>, and \<open>received\<close>: the
    deliveries to observers (observer id, message), both in order;
  \<^item> \<open>sent\<close>: the configurations the transport \<open>axios\<close> was called with, in order;
  \<^item> \<open>invoked\<close>: the calls of user callbacks (callback id, arguments), in order;
  \<^item> \<open>console\<close>: the values passed to \<open>console.log\<close>.
\<close>

record world =
  fresh :: addr
  objs :: "addr \<rightharpoonup> object"
  observers :: "string list"
  notified :: "obs_msg list"
  received :: "(string \<times> obs_msg) list"
  sent :: "axios_cnf list"
  invoked :: "(nat \<times> jsval list) list"
  console :: "jsval list"

text \<open>The own properties of the object at an address (none for an unused address).\<close>

definition object_at :: "world \<Rightarrow> addr \<Rightarrow> object" where
  "object_at w a = (case objs w a of Some m \<Rightarrow> m | None \<Rightarrow> Map.empty)"

text \<open>An object literal \<open>{k: v, ...}\<close>; \<open>{}\<close> is \<open>new_object Map.empty\<close>.\<close>

definition new_object :: "object \<Rightarrow> world \<Rightarrow> addr \<times> world" where
  "new_object m w = (fresh w, w\<lparr>fresh := Suc (fresh w), objs := (objs w)(fresh w \<mapsto> m)\<rparr>)"

text \<open>\<open>o[k]\<close> for a key that \<open>Object.prototype\<close> does not define.\<close>

definition get_prop :: "world \<Rightarrow> addr \<Rightarrow> string \<Rightarrow> jsval" where
  "get_prop w a k = (case object_at w a k of Some v \<Rightarrow> v | None \<Rightarrow> JUndefined)"

text \<open>\<open>o[k] = v\<close>\<close>

definition set_prop :: "addr \<Rightarrow> string \<Rightarrow> jsval \<Rightarrow> world \<Rightarrow> world" where
  "set_prop a k v w = w\<lparr>objs := (objs w)(a \<mapsto> (object_at w a)(k \<mapsto> v))\<rparr>"

text \<open>
  \<open>Object.assign(target, ...sources)\<close>: the own properties of each source, in turn, are
  written to the target; every source is read when its turn comes.
\<close>

definition assign_from :: "addr \<Rightarrow> addr \<Rightarrow> world \<Rightarrow> world" where
  "assign_from target source w =
     w\<lparr>objs := (objs w)(target \<mapsto> object_at w target ++ object_at w source)\<rparr>"

definition Object_assign :: "addr \<Rightarrow> addr list \<Rightarrow> world \<Rightarrow> world" where
  "Object_assign target sources w = fold (assign_from target) sources w"

text \<open>
  The transport \<open>axios(config)\<close> is a black box: the call is recorded; how the returned
  promise settles is an input of \<open>then_handler\<close> and \<open>catch_handler\<close> below.
\<close>

definition axios :: "axios_cnf \<Rightarrow> world \<Rightarrow> world" where
  "axios config w = w\<lparr>sent := sent w @ [config]\<rparr>"

text \<open>
  Modelled from the spec: GObservable, the base class of GRest, is a dependency that is not
  among the sources. Its contract in the spec: ``\<open>subscribe(id, callback)\<close> registers a
  handler invoked with any message passed to \<open>notify(message)\<close>; \<open>notify\<close> fans out
  synchronously to all subscribers''. Observers are identified by their ids; a delivery is
  recorded with the message as it is at that moment; observers return normally.
\<close>

definition notify :: "obs_msg \<Rightarrow> world \<Rightarrow> world" where
  "notify msg w =
     w\<lparr>notified := notified w @ [msg],
       received := received w @ map (\<lambda>observer. (observer, msg)) (observers w)\<rparr>"

definition console_log :: "jsval \<Rightarrow> world \<Rightarrow> world" where
  "console_log e w = w\<lparr>console := console w @ [e]\<rparr>"

section \<open>GRestRequest\<close>

text \<open>
  A user callback passed to \<open>ok\<close> or \<open>fail\<close>: its identity, and what its body does with
  the arguments it is called with: return a value or throw one. Callbacks do not reach back
  into the Request they are registered with.
\<close>

datatype completion = Returns jsval | Throws jsval

record callback =
  cb_id :: nat
  cb_body :: "jsval list \<Rightarrow> completion"

text \<open>A reference to the Client (the GRest instance, which is the observable).\<close>

datatype ref = Client_ref

text \<open>
  The fields of a GRestRequest: \<open>_axios\<close>, \<open>_observable\<close>, \<open>_obsMsg\<close>, \<open>_res\<close>, \<open>_err\<close>,
  \<open>_onOk\<close>, \<open>_onErr\<close>. \<open>None\<close> in \<open>priv_observable\<close>, \<open>priv_res\<close> and \<open>priv_err\<close> is
  \<open>undefined\<close>; \<open>_res\<close> is the two-element array \<open>[data, {status, headers}]\<close>.
\<close>

record request =
  priv_axios :: axios_cnf
  priv_observable :: "ref option"
  priv_obsMsg :: obs_msg
  priv_res :: "(jsval \<times> jsval) option"
  priv_err :: "jsval option"
  priv_onOk :: "callback list"
  priv_onErr :: "callback list"

text \<open>What the transport resolves with, and what it rejects with.\<close>

record response =
  res_data :: jsval
  res_status :: jsval
  res_headers :: jsval

record error_response =
  er_statusText :: jsval
  er_data :: jsval
  er_status :: jsval
  er_headers :: jsval

record failure =
  fail_message :: jsval
  fail_response :: "error_response option"

text \<open>\<open>_notify(status)\<close>\<close>

definition priv_notify :: "string \<Rightarrow> request \<Rightarrow> world \<Rightarrow> request \<times> world" where
  "priv_notify status this w =
     (case priv_observable this of
        None \<Rightarrow> (this, w)
      | Some observable \<Rightarrow>
          (let msg = (priv_obsMsg this)\<lparr>msg_status := Some status\<rparr>
           in (this\<lparr>priv_obsMsg := msg\<rparr>, notify msg w)))"

text \<open>Calling a callback: the call is recorded, the body decides how it completes.\<close>

definition call :: "callback \<Rightarrow> jsval list \<Rightarrow> world \<Rightarrow> completion \<times> world" where
  "call f args w = (cb_body f args, w\<lparr>invoked := invoked w @ [(cb_id f, args)]\<rparr>)"

text \<open>
  \<open>queue.forEach(f => f(...args))\<close>: a throw inside a callback ends the loop, and the
  exception leaves \<open>forEach\<close> (\<open>Some e\<close>).
\<close>

fun forEach_call :: "callback list \<Rightarrow> jsval list \<Rightarrow> world \<Rightarrow> jsval option \<times> world" where
  "forEach_call [] args w = (None, w)"
| "forEach_call (f # fs) args w =
     (case call f args w of
        (Returns v, w1) \<Rightarrow> forEach_call fs args w1
      | (Throws e, w1) \<Rightarrow> (Some e, w1))"

text \<open>
  \<open>try { body } catch (e) { handler(e) }\<close>, for a body and a handler that end normally
  (\<open>None\<close>) or by an exception (\<open>Some e\<close>).
\<close>

definition try_catch ::
  "(world \<Rightarrow> jsval option \<times> world) \<Rightarrow> (jsval \<Rightarrow> world \<Rightarrow> jsval option \<times> world)
    \<Rightarrow> world \<Rightarrow> jsval option \<times> world" where
  "try_catch body handler w =
     (case body w of
        (None, w1) \<Rightarrow> (None, w1)
      | (Some e, w1) \<Rightarrow> handler e w1)"

text \<open>
  The function passed to \<open>.then\<close> in \<open>again\<close>. The first component of the result is the
  exception that leaves the handler, if any; the statements after the one that throws are
  not executed. The \<open>forEach\<close> is inside \<open>try { ... } catch (e) { console.log(e) }\<close>.
\<close>

definition then_handler :: "response \<Rightarrow> request \<Rightarrow> world \<Rightarrow> jsval option \<times> request \<times> world" where
  "then_handler r this w =
     (let res = (res_data r, JObj [(''status'', res_status r), (''headers'', res_headers r)]);
          this1 = this\<lparr>priv_res := Some res\<rparr>;
          (escaped, w1) =
            try_catch (forEach_call (priv_onOk this1) [fst res, snd res])
              (\<lambda>e w'. (None, console_log e w')) w
      in case escaped of
           Some x \<Rightarrow> (Some x, this1, w1)
         | None \<Rightarrow>
             (let this2 = this1\<lparr>priv_onOk := []\<rparr>;
                  (this3, w3) = priv_notify ''ok'' this2 w1
              in (None, this3, w3)))"

text \<open>The normalized error object built in the function passed to \<open>.catch\<close>.\<close>

definition normalize_error :: "failure \<Rightarrow> jsval" where
  "normalize_error e =
     (case fail_response e of
        None \<Rightarrow> JObj [(''message'', js_or (fail_message e) (JStr ''Network Error''))]
      | Some response \<Rightarrow>
          JObj [(''message'', js_or (er_statusText response) (JStr ''Error'')),
                (''data'', er_data response),
                (''status'', er_status response),
                (''headers'', er_headers response)])"

text \<open>
  The function passed to \<open>.catch\<close> in \<open>again\<close>. Its \<open>forEach\<close> is not inside a \<open>try\<close>: an
  exception thrown by a callback leaves the handler at once.
\<close>

definition catch_handler :: "failure \<Rightarrow> request \<Rightarrow> world \<Rightarrow> jsval option \<times> request \<times> world" where
  "catch_handler e this w =
     (let err = normalize_error e;
          this1 = this\<lparr>priv_err := Some err\<rparr>;
          (escaped, w1) = forEach_call (priv_onErr this1) [err] w
      in case escaped of
           Some x \<Rightarrow> (Some x, this1, w1)
         | None \<Rightarrow>
             (let this2 = this1\<lparr>priv_onErr := []\<rparr>;
                  (this3, w3) = priv_notify ''fail'' this2 w1
              in (None, this3, w3)))"

text \<open>
  \<open>again()\<close>: notifies \<open>pending\<close>, clears the cached outcome and both queues, and calls the
  transport with the stored configuration. It returns the Request.
\<close>

definition again :: "request \<Rightarrow> world \<Rightarrow> request \<times> world" where
  "again this w =
     (let (this1, w1) = priv_notify ''pending'' this w;
          this2 = this1\<lparr>priv_res := None, priv_err := None, priv_onOk := [], priv_onErr := []\<rparr>
      in (this2, axios (priv_axios this2) w1))"

text \<open>\<open>new GRestRequest(axiosConfig, observable)\<close>; \<open>axiosConfig.endpoint || null\<close>.\<close>

definition GRestRequest :: "axios_cnf \<Rightarrow> ref option \<Rightarrow> world \<Rightarrow> request \<times> world" where
  "GRestRequest axiosConfig observable w =
     again
       \<lparr>priv_axios = axiosConfig,
        priv_observable = observable,
        priv_obsMsg =
          \<lparr>msg_endpoint =
             (case cnf_endpoint axiosConfig of
                None \<Rightarrow> JNull
              | Some n \<Rightarrow> js_or (JStr n) JNull),
           msg_method = cnf_method axiosConfig,
           msg_status = None\<rparr>,
        priv_res = None,
        priv_err = None,
        priv_onOk = [],
        priv_onErr = []\<rparr>
       w"

text \<open>
  \<open>ok(fn)\<close> and \<open>fail(fn)\<close>. The result is the exception thrown by \<open>fn\<close> when it is called
  at once and throws (then \<open>ok\<close> does not return), or else \<open>None\<close> and the Request, which
  is what \<open>return this\<close> hands back.
\<close>

definition ok :: "callback \<Rightarrow> request \<Rightarrow> world \<Rightarrow> jsval option \<times> request \<times> world" where
  "ok fn this w =
     (case priv_res this of
        Some res \<Rightarrow>
          (case call fn [fst res, snd res] w of
             (Returns v, w1) \<Rightarrow> (None, this, w1)
           | (Throws e, w1) \<Rightarrow> (Some e, this, w1))
      | None \<Rightarrow> (None, this\<lparr>priv_onOk := priv_onOk this @ [fn]\<rparr>, w))"

definition fail :: "callback \<Rightarrow> request \<Rightarrow> world \<Rightarrow> jsval option \<times> request \<times> world" where
  "fail fn this w =
     (case priv_err this of
        Some err \<Rightarrow>
          (case call fn [err] w of
             (Returns v, w1) \<Rightarrow> (None, this, w1)
           | (Throws e, w1) \<Rightarrow> (Some e, this, w1))
      | None \<Rightarrow> (None, this\<lparr>priv_onErr := priv_onErr this @ [fn]\<rparr>, w))"

text \<open>
  Method chaining \<open>request.m1(...).m2(...)\<close>: the second call is made on what the first
  returns, and is not made when the first throws.
\<close>

definition chain ::
  "jsval option \<times> request \<times> world \<Rightarrow> (request \<Rightarrow> world \<Rightarrow> jsval option \<times> request \<times> world)
    \<Rightarrow> jsval option \<times> request \<times> world" where
  "chain first second =
     (case first of
        (None, this, w) \<Rightarrow> second this w
      | (Some e, this, w) \<Rightarrow> (Some e, this, w))"

section \<open>GRest and GRestEndpoint\<close>

text \<open>
  A GRestEndpoint: its identity (the address it was allocated at) and its fields \<open>name\<close>,
  \<open>_api\<close>, \<open>_url\<close>. A GRest (the Client): \<open>url\<close>, \<open>authorization\<close>, \<open>_endpoints\<close>, the
  reference \<open>_headers\<close>, and the properties that \<open>endpoints\<close> has attached to the object
  (\<open>c_accessors\<close>: property key to Endpoint).
\<close>

record endpoint =
  ep_id :: addr
  ep_name :: string
  ep_api :: ref
  ep_url :: string

record client =
  c_url :: string
  c_authorization :: jsval
  c_endpoints :: "string list"
  c_headers :: addr
  c_accessors :: "string \<rightharpoonup> endpoint"

text \<open>
  Reading a property of a GRestEndpoint by name, as \<open>this.name\<close>, \<open>this._api\<close>,
  \<open>this._url\<close> do. The own properties are the three the constructor sets; the prototype
  chain holds the methods of GRestEndpoint and of \<open>Object.prototype\<close>; every other name
  reads as \<open>undefined\<close> (\<open>None\<close>).
\<close>

datatype endpoint_prop = Prop_string string | Prop_ref ref | Prop_function

definition endpoint_methods :: "string list" where
  "endpoint_methods =
     [''constructor'', ''http'', ''get'', ''post'', ''put'', ''delete'', ''_getDel'', ''_postPut'',
      ''release'', ''hasOwnProperty'', ''isPrototypeOf'', ''propertyIsEnumerable'',
      ''toLocaleString'', ''toString'', ''valueOf'']"

definition endpoint_get :: "endpoint \<Rightarrow> string \<Rightarrow> endpoint_prop option" where
  "endpoint_get this k =
     (if k = ''name'' then Some (Prop_string (ep_name this))
      else if k = ''_api'' then Some (Prop_ref (ep_api this))
      else if k = ''_url'' then Some (Prop_string (ep_url this))
      else if k \<in> set endpoint_methods then Some Prop_function
      else None)"

text \<open>
  \<open>new GRest(url, authorization)\<close>. The object \<open>{}\<close> of \<open>_headers\<close> is allocated in the store.
\<close>

definition GRest :: "string \<Rightarrow> jsval \<Rightarrow> world \<Rightarrow> client \<times> world" where
  "GRest url authorization w =
     (let (h, w1) = new_object Map.empty w
      in (\<lparr>c_url = normalize_url url,
           c_authorization = authorization,
           c_endpoints = [],
           c_headers = h,
           c_accessors = Map.empty\<rparr>, w1))"

text \<open>\<open>new GRestEndpoint(name, api)\<close>\<close>

definition GRestEndpoint :: "string \<Rightarrow> client \<Rightarrow> world \<Rightarrow> endpoint \<times> world" where
  "GRestEndpoint name api w =
     (\<lparr>ep_id = fresh w, ep_name = name, ep_api = Client_ref, ep_url = c_url api @ name @ ''/''\<rparr>,
      w\<lparr>fresh := Suc (fresh w)\<rparr>)"

text \<open>\<open>Array.from(new Set(xs))\<close>: the first occurrence of every element, in order.\<close>

definition Set_add :: "'a list \<Rightarrow> 'a \<Rightarrow> 'a list" where
  "Set_add seen x = (if x \<in> set seen then seen else seen @ [x])"

definition Array_from_Set :: "'a list \<Rightarrow> 'a list" where
  "Array_from_Set xs = foldl Set_add [] xs"

text \<open>
  The members a GRest instance has besides the accessors: the four fields its constructor
  sets and the methods of its class. What it inherits from GObservable (which is not among
  the sources) and from \<open>Object.prototype\<close> is the parameter \<open>base\<close>: \<open>base k\<close> is \<open>None\<close>
  when they define no member \<open>k\<close>, and \<open>Some b\<close> when they do, \<open>b\<close> telling whether its
  value is truthy.
\<close>

type_synonym members = "string \<Rightarrow> bool option"

definition grest_fields :: "string list" where
  "grest_fields = [''_endpoints'', ''_headers'', ''url'', ''authorization'']"

definition grest_methods :: "string list" where
  "grest_methods = [''constructor'', ''endpoints'', ''headers'', ''release'']"

definition is_member :: "members \<Rightarrow> string \<Rightarrow> bool" where
  "is_member base k = (k \<in> set grest_fields \<or> k \<in> set grest_methods \<or> base k \<noteq> None)"

text \<open>
  Whether \<open>_this[k]\<close> is truthy: an accessor is an object; \<open>url\<close> is a string;
  \<open>authorization\<close> is what was stored; \<open>_endpoints\<close> and \<open>_headers\<close> are objects; the
  methods are functions; the rest is inherited.
\<close>

definition prop_truthy :: "members \<Rightarrow> client \<Rightarrow> string \<Rightarrow> bool" where
  "prop_truthy base this k =
     (case c_accessors this k of
        Some e \<Rightarrow> True
      | None \<Rightarrow>
          if k = ''url'' then c_url this \<noteq> []
          else if k = ''authorization'' then truthy (c_authorization this)
          else if k = ''_endpoints'' \<or> k = ''_headers'' then True
          else if k \<in> set grest_methods then True
          else base k = Some True)"

text \<open>
  The body of \<open>list.forEach(endpoint => ...)\<close> in \<open>endpoints\<close>. The assignment
  \<open>_this[camelCase] = new GRestEndpoint(endpoint, _this)\<close> binds an accessor. When the
  key is the name of a member of the Client itself (a raw name such as \<open>"URL"\<close> gives the key
  \<open>url\<close>), the assignment replaces or shadows that member; what the object does from then
  on is not described by this theory, and the result is \<open>Inl\<close>.
\<close>

datatype unsupported = Replaces_member string

definition register :: "members \<Rightarrow> string \<Rightarrow> client \<times> world \<Rightarrow> unsupported + client \<times> world" where
  "register base endpoint cw =
     (case cw of (this, w) \<Rightarrow>
        if prop_truthy base this endpoint then Inr (this, w)
        else
          (let key = camelCase endpoint in
           if is_member base key then Inl (Replaces_member key)
           else
             (let (e, w1) = GRestEndpoint endpoint this w
              in Inr (this\<lparr>c_accessors := (c_accessors this)(key \<mapsto> e)\<rparr>, w1))))"

fun forEach_register ::
  "members \<Rightarrow> string list \<Rightarrow> client \<times> world \<Rightarrow> unsupported + client \<times> world" where
  "forEach_register base [] cw = Inr cw"
| "forEach_register base (endpoint # rest) cw =
     (case register base endpoint cw of
        Inl u \<Rightarrow> Inl u
      | Inr cw1 \<Rightarrow> forEach_register base rest cw1)"

text \<open>What a method with a get mode and a set mode returns.\<close>

datatype ret = Ret_names "string list" | Ret_object addr | Ret_this

text \<open>
  \<open>endpoints(list)\<close>. Without a list (\<open>None\<close>) it returns \<open>_endpoints\<close>. With one, it stores
  the deduplicated concatenation, runs the loop and returns the Client.
\<close>

definition endpoints ::
  "members \<Rightarrow> string list option \<Rightarrow> client \<Rightarrow> world \<Rightarrow> unsupported + ret \<times> client \<times> world" where
  "endpoints base list this w =
     (case list of
        None \<Rightarrow> Inr (Ret_names (c_endpoints this), this, w)
      | Some l \<Rightarrow>
          (let this1 = this\<lparr>c_endpoints := Array_from_Set (c_endpoints this @ l)\<rparr>
           in case forEach_register base l (this1, w) of
                Inl u \<Rightarrow> Inl u
              | Inr (this2, w2) \<Rightarrow> Inr (Ret_this, this2, w2)))"

text \<open>
  \<open>headers(map)\<close>. Without a map it returns the reference \<open>_headers\<close>. With one, it copies
  the map's properties into \<open>_headers\<close> and then deletes every entry of \<open>_headers\<close> whose
  value is \<open>null\<close> or \<open>undefined\<close>.
\<close>

definition drop_nullish :: "object \<Rightarrow> object" where
  "drop_nullish m =
     (\<lambda>k. case m k of None \<Rightarrow> None | Some v \<Rightarrow> if nullish v then None else Some v)"

definition headers :: "addr option \<Rightarrow> client \<Rightarrow> world \<Rightarrow> ret \<times> world" where
  "headers map_arg this w =
     (let hs = c_headers this in
      case map_arg of
        None \<Rightarrow> (Ret_object hs, w)
      | Some m \<Rightarrow>
          (let w1 = Object_assign (c_headers this) [m] w;
               w2 = w1\<lparr>objs := (objs w1)(c_headers this \<mapsto> drop_nullish (object_at w1 hs))\<rparr>
           in (Ret_this, w2)))"

text \<open>
  \<open>http(axiosCnf, queryString)\<close>, in four parts. \<open>api\<close> is the Client that \<open>this._api\<close>
  refers to, as it is when the call is made; \<open>api.headers()\<close> is the reference
  \<open>c_headers api\<close>.

  First the merge of the headers,
  \<open>Object.assign({}, api.headers(), axiosCnf.headers || {})\<close>: a new object, into which
  the global headers and then the caller's are copied. The result is the reference to the
  new object.
\<close>

definition http_merge :: "client \<Rightarrow> axios_cnf \<Rightarrow> world \<Rightarrow> addr \<times> world" where
  "http_merge api axiosCnf w =
     (let (hs, w1) = new_object Map.empty w;
          (given, w2) =
            (case cnf_headers axiosCnf of
               Some h \<Rightarrow> (h, w1)
             | None \<Rightarrow> new_object Map.empty w1)
      in (hs, Object_assign hs [c_headers api, given] w2))"

text \<open>
  Second, on the object of the merge, the forced \<open>X-Requested-With\<close> and
  \<open>if (auth && !headers.Authorization)\<close>. The result is the reference to the same
  object, now the headers of the request.
\<close>

definition http_headers :: "client \<Rightarrow> axios_cnf \<Rightarrow> world \<Rightarrow> addr \<times> world" where
  "http_headers api axiosCnf w =
     (let auth = c_authorization api;
          (hs, w3) = http_merge api axiosCnf w;
          w4 = set_prop hs ''X-Requested-With'' (JStr ''XMLHttpRequest'') w3;
          w5 = (if truthy auth \<and> \<not> truthy (get_prop w4 hs ''Authorization'')
                then set_prop hs ''Authorization'' auth w4
                else w4)
      in (hs, w5))"

text \<open>
  Third the configuration: \<open>axiosCnf.headers = headers\<close>, the URL, the query string (an
  object becomes \<open>params\<close>, anything else but \<open>undefined\<close> is appended to the URL), and
  \<open>axiosCnf.endpoint = this.name\<close>.
\<close>

definition http_config :: "endpoint \<Rightarrow> axios_cnf \<Rightarrow> addr \<Rightarrow> jsval \<Rightarrow> axios_cnf" where
  "http_config this axiosCnf hs queryString =
     (let cnf1 = axiosCnf\<lparr>cnf_headers := Some hs\<rparr>;
          cnf2 = cnf1\<lparr>cnf_url := Some (ep_url this)\<rparr>;
          qsType = typeof queryString;
          cnf3 =
            (if qsType = ''object'' then cnf2\<lparr>cnf_params := Some queryString\<rparr>
             else if qsType \<noteq> ''undefined''
             then cnf2\<lparr>cnf_url := Some (ep_url this @ to_string queryString)\<rparr>
             else cnf2)
      in cnf3\<lparr>cnf_endpoint := Some (ep_name this)\<rparr>)"

text \<open>
  Last \<open>return new GRestRequest(axiosCnf, this.api)\<close>: the second argument is what
  reading the property \<open>api\<close> of the Endpoint gives.
\<close>

definition http :: "client \<Rightarrow> endpoint \<Rightarrow> axios_cnf \<Rightarrow> jsval \<Rightarrow> world \<Rightarrow> request \<times> world" where
  "http api this axiosCnf queryString w =
     (let (hs, w5) = http_headers api axiosCnf w;
          observable =
            (case endpoint_get this ''api'' of Some (Prop_ref r) \<Rightarrow> Some r | _ \<Rightarrow> None)
      in GRestRequest (http_config this axiosCnf hs queryString) observable w5)"

text \<open>The object literals \<open>{ method }\<close> and \<open>{ method, data }\<close>.\<close>

definition cnf_of_method :: "string \<Rightarrow> axios_cnf" where
  "cnf_of_method m =
     \<lparr>cnf_method = JStr m, cnf_data = None, cnf_headers = None, cnf_url = None,
      cnf_params = None, cnf_endpoint = None\<rparr>"

definition cnf_of_method_data :: "string \<Rightarrow> jsval \<Rightarrow> axios_cnf" where
  "cnf_of_method_data m d = (cnf_of_method m)\<lparr>cnf_data := Some d\<rparr>"

text \<open>\<open>_getDel\<close>, \<open>_postPut\<close> and the four verbs. An argument left out is \<open>JUndefined\<close>.\<close>

definition priv_getDel :: "client \<Rightarrow> endpoint \<Rightarrow> string \<Rightarrow> jsval \<Rightarrow> world \<Rightarrow> request \<times> world" where
  "priv_getDel api this m queryString w = http api this (cnf_of_method m) queryString w"

definition priv_postPut ::
  "client \<Rightarrow> endpoint \<Rightarrow> string \<Rightarrow> jsval \<Rightarrow> jsval \<Rightarrow> world \<Rightarrow> request \<times> world" where
  "priv_postPut api this m queryStringOrData data w =
     (if \<not> truthy data
      then http api this (cnf_of_method_data m queryStringOrData) JNull w
      else http api this (cnf_of_method_data m data) queryStringOrData w)"

definition get :: "client \<Rightarrow> endpoint \<Rightarrow> jsval \<Rightarrow> world \<Rightarrow> request \<times> world" where
  "get api this queryString w = priv_getDel api this ''get'' queryString w"

definition post :: "client \<Rightarrow> endpoint \<Rightarrow> jsval \<Rightarrow> jsval \<Rightarrow> world \<Rightarrow> request \<times> world" where
  "post api this queryStringOrData data w = priv_postPut api this ''post'' queryStringOrData data w"

definition put :: "client \<Rightarrow> endpoint \<Rightarrow> jsval \<Rightarrow> jsval \<Rightarrow> world \<Rightarrow> request \<times> world" where
  "put api this queryStringOrData data w = priv_postPut api this ''put'' queryStringOrData data w"

definition delete :: "client \<Rightarrow> endpoint \<Rightarrow> jsval \<Rightarrow> world \<Rightarrow> request \<times> world" where
  "delete api this queryString w = priv_getDel api this ''delete'' queryString w"

text \<open>The header \<open>k\<close> of a configuration, read in a given world.\<close>

definition header_of :: "world \<Rightarrow> axios_cnf \<Rightarrow> string \<Rightarrow> jsval option" where
  "header_of w cnf k = (case cnf_headers cnf of None \<Rightarrow> None | Some h \<Rightarrow> object_at w h k)"

section \<open>A concrete setting\<close>

text \<open>
  A world to start from: an empty store, no observers, nothing recorded yet.
\<close>

definition initial_world :: world where
  "initial_world =
     \<lparr>fresh = 0, objs = Map.empty, observers = [], notified = [], received = [],
      sent = [], invoked = [], console = []\<rparr>"

text \<open>
  An instance of the parameter \<open>base\<close>: the two methods of GObservable that the README and
  the spec name (\<open>setObserver\<close>, \<open>notify\<close>) and the members of \<open>Object.prototype\<close>, all of
  them truthy.
\<close>

definition usual_base :: members where
  "usual_base k =
     (if k \<in> set [''setObserver'', ''notify'', ''__defineGetter__'', ''__defineSetter__'',
                  ''hasOwnProperty'', ''__lookupGetter__'', ''__lookupSetter__'',
                  ''isPrototypeOf'', ''propertyIsEnumerable'', ''toString'', ''valueOf'',
                  ''__proto__'', ''toLocaleString'']
      then Some True else None)"

text \<open>
  A Client for \<open>"https://api.net"\<close> with \<open>authorization = "Bearer X"\<close>, one observer
  \<open>"ui"\<close> and the endpoint \<open>"users"\<close> registered: the objects as they are after
  \<open>new GRest("https://api.net", "Bearer X")\<close> and \<open>endpoints(["users"])\<close> (lemma
  \<open>example_setting\<close> below).
\<close>

definition example_start :: world where
  "example_start = initial_world\<lparr>observers := [''ui'']\<rparr>"

definition example_users :: endpoint where
  "example_users =
     \<lparr>ep_id = 1, ep_name = ''users'', ep_api = Client_ref, ep_url = ''https://api.net/users/''\<rparr>"

definition example_client :: client where
  "example_client =
     \<lparr>c_url = ''https://api.net/'', c_authorization = JStr ''Bearer X'',
      c_endpoints = [''users''], c_headers = 0,
      c_accessors = [''users'' \<mapsto> example_users]\<rparr>"

definition example_world :: world where
  "example_world = example_start\<lparr>fresh := 2, objs := [0 \<mapsto> Map.empty]\<rparr>"

text \<open>
  The example after \<open>headers({"Accept-version": "3.2"})\<close>, together with the headers object
  \<open>{"Accept-version": "4.0", "One-Time-Header": "1"}\<close> of a caller and a configuration that
  refers to it.
\<close>

definition versioned_world :: world where
  "versioned_world =
     snd (new_object [''Accept-version'' \<mapsto> JStr ''4.0'', ''One-Time-Header'' \<mapsto> JStr ''1'']
            (set_prop 0 ''Accept-version'' (JStr ''3.2'') example_world))"

definition versioned_cnf :: axios_cnf where
  "versioned_cnf = (cnf_of_method ''post'')\<lparr>cnf_headers := Some 2\<rparr>"

text \<open>
  Three callbacks, a response and a failure: \<open>cb_one\<close> returns a value of its own,
  \<open>cb_two\<close> returns nothing, \<open>cb_boom\<close> throws.
\<close>

definition cb_one :: callback where
  "cb_one = \<lparr>cb_id = 1, cb_body = (\<lambda>args. Returns (JStr ''changed''))\<rparr>"

definition cb_two :: callback where
  "cb_two = \<lparr>cb_id = 2, cb_body = (\<lambda>args. Returns JUndefined)\<rparr>"

definition cb_boom :: callback where
  "cb_boom = \<lparr>cb_id = 3, cb_body = (\<lambda>args. Throws (JStr ''boom''))\<rparr>"

definition example_response :: response where
  "example_response =
     \<lparr>res_data = JObj [(''id'', JNum 7)], res_status = JNum 200, res_headers = JObj []\<rparr>"

definition example_failure :: failure where
  "example_failure = \<lparr>fail_message = JStr ''timeout'', fail_response = None\<rparr>"

text \<open>
  A Request constructed with the Client as its observable,
  \<open>new GRestRequest({method: "get"}, api)\<close>, in the example's world; the same Request
  after its transport call has resolved with the example's response; and after it has
  rejected with the example's failure.
\<close>

definition watched_request :: request where
  "watched_request = fst (GRestRequest (cnf_of_method ''get'') (Some Client_ref) example_world)"

definition watched_world :: world where
  "watched_world = snd (GRestRequest (cnf_of_method ''get'') (Some Client_ref) example_world)"

definition resolved_request :: request where
  "resolved_request = fst (snd (then_handler example_response watched_request watched_world))"

definition rejected_request :: request where
  "rejected_request = fst (snd (catch_handler example_failure watched_request watched_world))"

section \<open>Notions used to state the properties\<close>

text \<open>\<open>m[k]\<close> on a map of own properties: \<open>undefined\<close> when there is none.\<close>

definition lookup :: "object \<Rightarrow> string \<Rightarrow> jsval" where
  "lookup m k = (case m k of Some v \<Rightarrow> v | None \<Rightarrow> JUndefined)"

text \<open>
  The headers the caller passed in \<open>axiosCnf.headers\<close> (none when the property is absent),
  and the Client's global headers overlaid by them, as maps read in the world before the
  call.
\<close>

definition given_headers :: "axios_cnf \<Rightarrow> world \<Rightarrow> object" where
  "given_headers axiosCnf w =
     (case cnf_headers axiosCnf of Some h \<Rightarrow> object_at w h | None \<Rightarrow> Map.empty)"

definition merged :: "client \<Rightarrow> axios_cnf \<Rightarrow> world \<Rightarrow> object" where
  "merged api axiosCnf w = object_at w (c_headers api) ++ given_headers axiosCnf w"

text \<open>The headers object of the configuration, if the caller passed one, is in the store.\<close>

definition allocated :: "world \<Rightarrow> axios_cnf \<Rightarrow> bool" where
  "allocated w axiosCnf = (case cnf_headers axiosCnf of Some h \<Rightarrow> h < fresh w | None \<Rightarrow> True)"

text \<open>
  The content of the headers object that \<open>http\<close> builds: the merge, the forced
  \<open>X-Requested-With\<close>, and the Client's \<open>authorization\<close> where it is truthy and the merge
  holds no truthy \<open>Authorization\<close>.
\<close>

definition dispatched :: "client \<Rightarrow> axios_cnf \<Rightarrow> world \<Rightarrow> object" where
  "dispatched api axiosCnf w =
     (let m = (merged api axiosCnf w)(''X-Requested-With'' \<mapsto> JStr ''XMLHttpRequest'')
      in if truthy (c_authorization api) \<and> \<not> truthy (lookup m ''Authorization'')
         then m(''Authorization'' \<mapsto> c_authorization api) else m)"

text \<open>
  The callbacks of a queue that \<open>forEach\<close> calls with given arguments: all of them up to
  and including the first one that throws; and the exception that this one throws.
\<close>

fun called :: "callback list \<Rightarrow> jsval list \<Rightarrow> callback list" where
  "called [] args = []"
| "called (f # fs) args =
     (case cb_body f args of Returns v \<Rightarrow> f # called fs args | Throws e \<Rightarrow> [f])"

fun thrown :: "callback list \<Rightarrow> jsval list \<Rightarrow> jsval option" where
  "thrown [] args = None"
| "thrown (f # fs) args =
     (case cb_body f args of Returns v \<Rightarrow> thrown fs args | Throws e \<Rightarrow> Some e)"

text \<open>The record of calling each of the callbacks with the same arguments.\<close>

definition calls :: "callback list \<Rightarrow> jsval list \<Rightarrow> (nat \<times> jsval list) list" where
  "calls fs args = map (\<lambda>f. (cb_id f, args)) fs"

text \<open>
  The arguments a success callback is called with for a response, \<open>(data, {status,
  headers})\<close>, and the message a Request sends to its observable for a status.
\<close>

definition ok_args :: "response \<Rightarrow> jsval list" where
  "ok_args r = [res_data r, JObj [(''status'', res_status r), (''headers'', res_headers r)]]"

definition message :: "request \<Rightarrow> string \<Rightarrow> obs_msg" where
  "message this status = (priv_obsMsg this)\<lparr>msg_status := Some status\<rparr>"

section \<open>Basic facts\<close>

lemma camelCase_auth_login: "camelCase ''auth/login'' = ''authLogin''"
  by (simp add: camelCase_def toLowerCase_def lower_char_def upper_char_def word_char_def
      lower_letters_def upper_letters_def)

lemma endpoint_get_api: "endpoint_get this ''api'' = None"
  by (simp add: endpoint_get_def endpoint_methods_def)

subsection \<open>The store operations, field by field\<close>

lemma set_prop_fields [simp]:
  "fresh (set_prop a k v w) = fresh w"
  "observers (set_prop a k v w) = observers w"
  "notified (set_prop a k v w) = notified w"
  "received (set_prop a k v w) = received w"
  "sent (set_prop a k v w) = sent w"
  "invoked (set_prop a k v w) = invoked w"
  "console (set_prop a k v w) = console w"
  by (simp_all add: set_prop_def)

lemma object_at_set_prop [simp]:
  "object_at (set_prop a k v w) b = (if b = a then (object_at w a)(k \<mapsto> v) else object_at w b)"
  by (simp add: set_prop_def object_at_def)

lemma assign_from_fields [simp]:
  "fresh (assign_from t s w) = fresh w"
  "observers (assign_from t s w) = observers w"
  "notified (assign_from t s w) = notified w"
  "received (assign_from t s w) = received w"
  "sent (assign_from t s w) = sent w"
  "invoked (assign_from t s w) = invoked w"
  "console (assign_from t s w) = console w"
  by (simp_all add: assign_from_def)

lemma object_at_assign_from [simp]:
  "object_at (assign_from t s w) b =
     (if b = t then object_at w t ++ object_at w s else object_at w b)"
  by (simp add: assign_from_def object_at_def)

lemma Object_assign_simps [simp]:
  "Object_assign t [] w = w"
  "Object_assign t (s # ss) w = Object_assign t ss (assign_from t s w)"
  by (simp_all add: Object_assign_def)

lemma new_object_simps [simp]:
  "fst (new_object m w) = fresh w"
  "fresh (snd (new_object m w)) = Suc (fresh w)"
  "observers (snd (new_object m w)) = observers w"
  "notified (snd (new_object m w)) = notified w"
  "received (snd (new_object m w)) = received w"
  "sent (snd (new_object m w)) = sent w"
  "invoked (snd (new_object m w)) = invoked w"
  "console (snd (new_object m w)) = console w"
  by (simp_all add: new_object_def)

lemma object_at_new_object [simp]:
  "object_at (snd (new_object m w)) b = (if b = fresh w then m else object_at w b)"
  by (simp add: new_object_def object_at_def)

lemma object_at_sent_update [simp]: "object_at (w\<lparr>sent := x\<rparr>) a = object_at w a"
  by (simp add: object_at_def)

lemma get_prop_lookup: "get_prop w a k = lookup (object_at w a) k"
  by (simp add: get_prop_def lookup_def)

subsection \<open>The headers object of http\<close>

lemma http_headers_Some:
  "cnf_headers axiosCnf = Some h \<Longrightarrow>
   http_headers api axiosCnf w =
     (let w1 = snd (new_object Map.empty w);
          w3 = Object_assign (fresh w) [c_headers api, h] w1;
          w4 = set_prop (fresh w) ''X-Requested-With'' (JStr ''XMLHttpRequest'') w3
      in (fresh w,
          if truthy (c_authorization api) \<and> \<not> truthy (get_prop w4 (fresh w) ''Authorization'')
          then set_prop (fresh w) ''Authorization'' (c_authorization api) w4 else w4))"
  by (simp add: http_headers_def http_merge_def Let_def split_beta)

lemma http_headers_None:
  "cnf_headers axiosCnf = None \<Longrightarrow>
   http_headers api axiosCnf w =
     (let w1 = snd (new_object Map.empty w);
          w2 = snd (new_object Map.empty w1);
          w3 = Object_assign (fresh w) [c_headers api, Suc (fresh w)] w2;
          w4 = set_prop (fresh w) ''X-Requested-With'' (JStr ''XMLHttpRequest'') w3
      in (fresh w,
          if truthy (c_authorization api) \<and> \<not> truthy (get_prop w4 (fresh w) ''Authorization'')
          then set_prop (fresh w) ''Authorization'' (c_authorization api) w4 else w4))"
  by (simp add: http_headers_def http_merge_def Let_def split_beta)

lemma http_headers_fst: "fst (http_headers api axiosCnf w) = fresh w"
  by (cases "cnf_headers axiosCnf") (simp_all add: http_headers_Some http_headers_None Let_def)

lemma http_headers_fields:
  "observers (snd (http_headers api axiosCnf w)) = observers w"
  "notified (snd (http_headers api axiosCnf w)) = notified w"
  "received (snd (http_headers api axiosCnf w)) = received w"
  "sent (snd (http_headers api axiosCnf w)) = sent w"
  "invoked (snd (http_headers api axiosCnf w)) = invoked w"
  "console (snd (http_headers api axiosCnf w)) = console w"
  by (cases "cnf_headers axiosCnf"; simp add: http_headers_Some http_headers_None Let_def)+

lemma http_headers_frame:
  "a < fresh w \<Longrightarrow> object_at (snd (http_headers api axiosCnf w)) a = object_at w a"
  by (cases "cnf_headers axiosCnf") (simp_all add: http_headers_Some http_headers_None Let_def)

lemma http_merge_object:
  assumes "c_headers api < fresh w" and "allocated w axiosCnf"
  shows "object_at (snd (http_merge api axiosCnf w)) (fst (http_merge api axiosCnf w)) =
           merged api axiosCnf w"
proof (cases "cnf_headers axiosCnf")
  case None
  then show ?thesis
    using assms
    by (simp add: http_merge_def Let_def split_beta merged_def given_headers_def)
next
  case (Some h)
  then show ?thesis
    using assms
    by (simp add: http_merge_def Let_def split_beta merged_def given_headers_def allocated_def)
qed

lemma http_headers_object:
  assumes "c_headers api < fresh w" and "allocated w axiosCnf"
  shows "object_at (snd (http_headers api axiosCnf w)) (fresh w) = dispatched api axiosCnf w"
proof (cases "cnf_headers axiosCnf")
  case None
  then show ?thesis
    using assms
    by (simp add: http_headers_None Let_def dispatched_def merged_def given_headers_def
        get_prop_lookup)
next
  case (Some h)
  then show ?thesis
    using assms
    by (simp add: http_headers_Some Let_def dispatched_def merged_def given_headers_def
        allocated_def get_prop_lookup)
qed

subsection \<open>The Request that http returns\<close>

lemma GRestRequest_no_observable:
  "GRestRequest axiosConfig None w =
     (\<lparr>priv_axios = axiosConfig,
       priv_observable = None,
       priv_obsMsg =
         \<lparr>msg_endpoint =
            (case cnf_endpoint axiosConfig of None \<Rightarrow> JNull | Some n \<Rightarrow> js_or (JStr n) JNull),
          msg_method = cnf_method axiosConfig,
          msg_status = None\<rparr>,
       priv_res = None, priv_err = None, priv_onOk = [], priv_onErr = []\<rparr>,
      w\<lparr>sent := sent w @ [axiosConfig]\<rparr>)"
  by (simp add: GRestRequest_def again_def priv_notify_def axios_def)

lemma http_unfold:
  "http api this axiosCnf queryString w =
     GRestRequest (http_config this axiosCnf (fresh w) queryString) None
       (snd (http_headers api axiosCnf w))"
  using http_headers_fst [of api axiosCnf w]
  by (simp add: http_def endpoint_get_api split_beta Let_def)

lemma http_request:
  "priv_axios (fst (http api this axiosCnf queryString w)) =
     http_config this axiosCnf (fresh w) queryString"
  "priv_observable (fst (http api this axiosCnf queryString w)) = None"
  "priv_res (fst (http api this axiosCnf queryString w)) = None"
  "priv_err (fst (http api this axiosCnf queryString w)) = None"
  "priv_onOk (fst (http api this axiosCnf queryString w)) = []"
  "priv_onErr (fst (http api this axiosCnf queryString w)) = []"
  by (simp_all add: http_unfold GRestRequest_no_observable)

lemma http_world:
  "snd (http api this axiosCnf queryString w) =
     (snd (http_headers api axiosCnf w))
       \<lparr>sent := sent w @ [http_config this axiosCnf (fresh w) queryString]\<rparr>"
  by (simp add: http_unfold GRestRequest_no_observable http_headers_fields)

lemma http_config_object:
  "typeof q = ''object'' \<Longrightarrow>
   http_config this axiosCnf hs q =
     axiosCnf\<lparr>cnf_headers := Some hs, cnf_url := Some (ep_url this), cnf_params := Some q,
       cnf_endpoint := Some (ep_name this)\<rparr>"
  by (simp add: http_config_def Let_def)

lemma header_of_http:
  assumes "c_headers api < fresh w" and "allocated w axiosCnf"
  shows "header_of (snd (http api this axiosCnf q w))
           (priv_axios (fst (http api this axiosCnf q w))) k =
         dispatched api axiosCnf w k"
proof -
  have "cnf_headers (http_config this axiosCnf (fresh w) q) = Some (fresh w)"
    by (simp add: http_config_def Let_def)
  then show ?thesis
    using assms
    by (simp add: header_of_def http_request http_world http_headers_object)
qed

lemma http_frame:
  "a < fresh w \<Longrightarrow> object_at (snd (http api this axiosCnf q w)) a = object_at w a"
  by (simp add: http_world http_headers_frame)

lemma http_notifies_nobody:
  "notified (snd (http api this axiosCnf q w)) = notified w"
  "received (snd (http api this axiosCnf q w)) = received w"
  by (simp_all add: http_world http_headers_fields)

subsection \<open>The loop over a queue of callbacks\<close>

lemma forEach_call_fields:
  "fresh (snd (forEach_call fs args w)) = fresh w"
  "objs (snd (forEach_call fs args w)) = objs w"
  "observers (snd (forEach_call fs args w)) = observers w"
  "notified (snd (forEach_call fs args w)) = notified w"
  "received (snd (forEach_call fs args w)) = received w"
  "sent (snd (forEach_call fs args w)) = sent w"
  by (induction fs arbitrary: w; simp add: call_def split: completion.splits)+

lemma then_handler_no_observable:
  "priv_observable rq = None \<Longrightarrow>
   notified (snd (snd (then_handler r rq w))) = notified w \<and>
   received (snd (snd (then_handler r rq w))) = received w"
  by (simp add: then_handler_def try_catch_def priv_notify_def Let_def split_beta
      forEach_call_fields console_log_def split: option.splits)

lemma catch_handler_no_observable:
  "priv_observable rq = None \<Longrightarrow>
   notified (snd (snd (catch_handler e rq w))) = notified w \<and>
   received (snd (snd (catch_handler e rq w))) = received w"
  by (simp add: catch_handler_def priv_notify_def Let_def split_beta forEach_call_fields
      split: option.splits)

subsection \<open>The constructor and the example\<close>

lemma normalize_url_api_net: "normalize_url ''https://api.net'' = ''https://api.net/''"
  by (simp add: normalize_url_def)

lemma GRest_api_net:
  "GRest ''https://api.net'' auth w =
     (\<lparr>c_url = ''https://api.net/'', c_authorization = auth, c_endpoints = [],
       c_headers = fresh w, c_accessors = Map.empty\<rparr>,
      w\<lparr>fresh := Suc (fresh w), objs := (objs w)(fresh w \<mapsto> Map.empty)\<rparr>)"
  by (simp add: GRest_def new_object_def normalize_url_api_net)

lemma camelCase_users: "camelCase ''users'' = ''users''"
  by (simp add: camelCase_def toLowerCase_def lower_char_def upper_char_def word_char_def
      lower_letters_def upper_letters_def)

lemma example_setting:
  "(case GRest ''https://api.net'' (JStr ''Bearer X'') example_start of
      (c, w) \<Rightarrow> endpoints usual_base (Some [''users'']) c w) =
   Inr (Ret_this, example_client, example_world)"
  by (simp add: GRest_api_net endpoints_def Array_from_Set_def Set_add_def register_def
      prop_truthy_def grest_methods_def grest_fields_def usual_base_def is_member_def
      camelCase_users GRestEndpoint_def example_client_def example_world_def
      example_users_def example_start_def initial_world_def Let_def)

lemma example_values:
  "c_headers example_client = 0"
  "c_authorization example_client = JStr ''Bearer X''"
  "fresh example_world = 2"
  "object_at example_world 0 = Map.empty"
  "observers example_world = [''ui'']"
  "notified example_world = []"
  "received example_world = []"
  "sent example_world = []"
  "invoked example_world = []"
  "console example_world = []"
  "ep_url example_users = ''https://api.net/users/''"
  "ep_name example_users = ''users''"
  by (simp_all add: example_client_def example_world_def example_users_def example_start_def
      initial_world_def object_at_def)

lemma camelCase_auth_dash_login: "camelCase ''auth-login'' = ''authLogin''"
  by (simp add: camelCase_def toLowerCase_def lower_char_def upper_char_def word_char_def
      lower_letters_def upper_letters_def)

subsection \<open>The set mode of headers\<close>

lemma headers_set:
  "headers (Some m) this w =
     (Ret_this,
      w\<lparr>objs := (objs w)(c_headers this \<mapsto>
         drop_nullish (object_at w (c_headers this) ++ object_at w m))\<rparr>)"
  by (simp add: headers_def Let_def assign_from_def object_at_def)

lemma headers_set_fields:
  "fst (headers (Some m) this w) = Ret_this"
  "fresh (snd (headers (Some m) this w)) = fresh w"
  "sent (snd (headers (Some m) this w)) = sent w"
  by (simp_all add: headers_set)

lemma object_at_headers_set:
  "object_at (snd (headers (Some m) this w)) a =
     (if a = c_headers this
      then drop_nullish (object_at w (c_headers this) ++ object_at w m)
      else object_at w a)"
  by (simp add: headers_set object_at_def)

lemma headers_get: "headers None this w = (Ret_object (c_headers this), w)"
  by (simp add: headers_def)

lemma drop_nullish_apply:
  "drop_nullish u k =
     (case u k of
        None \<Rightarrow> None
      | Some x \<Rightarrow> if x = JNull \<or> x = JUndefined then None else Some x)"
  by (cases "u k"; cases "the (u k)"; simp add: drop_nullish_def nullish_def)

subsection \<open>Delivery to a queue of callbacks\<close>

lemma forEach_call_eq:
  "forEach_call fs args w =
     (thrown fs args, w\<lparr>invoked := invoked w @ calls (called fs args) args\<rparr>)"
  by (induction fs arbitrary: w) (simp_all add: call_def calls_def split: completion.splits)

lemma called_until_throw:
  assumes "\<forall>f \<in> set fs. \<exists>v. cb_body f args = Returns v" and "cb_body g args = Throws e"
  shows "called (fs @ g # gs) args = fs @ [g] \<and> thrown (fs @ g # gs) args = Some e"
  using assms by (induction fs) (auto split: completion.splits)

lemma priv_notify_eq:
  "priv_notify status this w =
     (case priv_observable this of
        None \<Rightarrow> (this, w)
      | Some obs \<Rightarrow>
          (this\<lparr>priv_obsMsg := message this status\<rparr>,
           w\<lparr>notified := notified w @ [message this status],
             received := received w @
               map (\<lambda>observer. (observer, message this status)) (observers w)\<rparr>))"
  by (simp add: priv_notify_def message_def notify_def Let_def split: option.splits)

lemma priv_notify_keeps:
  "invoked (snd (priv_notify status this w)) = invoked w"
  "sent (snd (priv_notify status this w)) = sent w"
  "console (snd (priv_notify status this w)) = console w"
  by (simp_all add: priv_notify_eq split: option.splits)

lemma then_handler_eq:
  "then_handler r this w =
     (None,
      fst (priv_notify ''ok''
             (this\<lparr>priv_res :=
                     Some (res_data r,
                           JObj [(''status'', res_status r), (''headers'', res_headers r)]),
                   priv_onOk := []\<rparr>)
             (w\<lparr>invoked := invoked w @ calls (called (priv_onOk this) (ok_args r)) (ok_args r),
                console := console w @
                  (case thrown (priv_onOk this) (ok_args r) of None \<Rightarrow> [] | Some e \<Rightarrow> [e])\<rparr>)),
      snd (priv_notify ''ok''
             (this\<lparr>priv_res :=
                     Some (res_data r,
                           JObj [(''status'', res_status r), (''headers'', res_headers r)]),
                   priv_onOk := []\<rparr>)
             (w\<lparr>invoked := invoked w @ calls (called (priv_onOk this) (ok_args r)) (ok_args r),
                console := console w @
                  (case thrown (priv_onOk this) (ok_args r) of None \<Rightarrow> [] | Some e \<Rightarrow> [e])\<rparr>)))"
  by (simp add: then_handler_def try_catch_def Let_def forEach_call_eq ok_args_def
      console_log_def split_beta split: option.splits)

lemma catch_handler_eq:
  "catch_handler e this w =
     (case thrown (priv_onErr this) [normalize_error e] of
        Some x \<Rightarrow>
          (Some x, this\<lparr>priv_err := Some (normalize_error e)\<rparr>,
           w\<lparr>invoked := invoked w @
                calls (called (priv_onErr this) [normalize_error e]) [normalize_error e]\<rparr>)
      | None \<Rightarrow>
          (None,
           fst (priv_notify ''fail''
                  (this\<lparr>priv_err := Some (normalize_error e), priv_onErr := []\<rparr>)
                  (w\<lparr>invoked := invoked w @
                       calls (called (priv_onErr this) [normalize_error e])
                         [normalize_error e]\<rparr>)),
           snd (priv_notify ''fail''
                  (this\<lparr>priv_err := Some (normalize_error e), priv_onErr := []\<rparr>)
                  (w\<lparr>invoked := invoked w @
                       calls (called (priv_onErr this) [normalize_error e])
                         [normalize_error e]\<rparr>))))"
  by (simp add: catch_handler_def Let_def forEach_call_eq split_beta split: option.splits)

lemma ok_resolved:
  assumes "priv_res this = Some (d, m)"
  shows "ok fn this w =
           (case cb_body fn [d, m] of Returns v \<Rightarrow> None | Throws e \<Rightarrow> Some e,
            this, w\<lparr>invoked := invoked w @ [(cb_id fn, [d, m])]\<rparr>)"
  using assms by (simp add: ok_def call_def split: completion.splits)

lemma ok_unresolved:
  "priv_res this = None \<Longrightarrow>
   ok fn this w = (None, this\<lparr>priv_onOk := priv_onOk this @ [fn]\<rparr>, w)"
  by (simp add: ok_def)

lemma fail_resolved:
  assumes "priv_err this = Some err"
  shows "fail fn this w =
           (case cb_body fn [err] of Returns v \<Rightarrow> None | Throws e \<Rightarrow> Some e,
            this, w\<lparr>invoked := invoked w @ [(cb_id fn, [err])]\<rparr>)"
  using assms by (simp add: fail_def call_def split: completion.splits)

lemma fail_unresolved:
  "priv_err this = None \<Longrightarrow>
   fail fn this w = (None, this\<lparr>priv_onErr := priv_onErr this @ [fn]\<rparr>, w)"
  by (simp add: fail_def)

section \<open>The overload of post and put\<close>

text \<open>
  Claim C10. In \<open>post\<close> and \<open>put\<close> the overload is decided by the falsiness of the second
  argument: whenever \<open>y\<close> is falsy (\<open>undefined\<close>, \<open>null\<close>, \<open>0\<close>, \<open>""\<close>, \<open>false\<close>),
  \<open>post(x, y)\<close> is \<open>http({method: "post", data: x}, null)\<close>: \<open>x\<close> is the body, \<open>y\<close>
  occurs nowhere in the configuration that is sent, the URL is the Endpoint's URL with
  nothing appended, and \<open>params\<close> is present and \<open>null\<close>. The same holds for \<open>put\<close>.
\<close>

theorem post_put_falsy_second_argument:
  assumes "\<not> truthy y"
  shows "post api this x y w = http api this (cnf_of_method_data ''post'' x) JNull w \<and>
         put api this x y w = http api this (cnf_of_method_data ''put'' x) JNull w \<and>
         priv_axios (fst (post api this x y w)) =
           \<lparr>cnf_method = JStr ''post'', cnf_data = Some x, cnf_headers = Some (fresh w),
            cnf_url = Some (ep_url this), cnf_params = Some JNull,
            cnf_endpoint = Some (ep_name this)\<rparr> \<and>
         priv_axios (fst (put api this x y w)) =
           \<lparr>cnf_method = JStr ''put'', cnf_data = Some x, cnf_headers = Some (fresh w),
            cnf_url = Some (ep_url this), cnf_params = Some JNull,
            cnf_endpoint = Some (ep_name this)\<rparr> \<and>
         sent (snd (post api this x y w)) = sent w @ [priv_axios (fst (post api this x y w))] \<and>
         sent (snd (put api this x y w)) = sent w @ [priv_axios (fst (put api this x y w))]"
proof -
  have p: "post api this x y w = http api this (cnf_of_method_data ''post'' x) JNull w"
    using assms by (simp add: post_def priv_postPut_def)
  have q: "put api this x y w = http api this (cnf_of_method_data ''put'' x) JNull w"
    using assms by (simp add: put_def priv_postPut_def)
  show ?thesis
    unfolding p q
    by (simp add: http_request http_world http_headers_fields http_config_object
        cnf_of_method_data_def cnf_of_method_def)
qed

text \<open>\<open>post("12345", 0)\<close> on the example: the id is the body, and \<open>0\<close> is not sent.\<close>

theorem post_put_falsy_second_argument_witness:
  "\<not> truthy (JNum 0) \<and>
   priv_axios (fst (post example_client example_users (JStr ''12345'') (JNum 0) example_world)) =
     \<lparr>cnf_method = JStr ''post'', cnf_data = Some (JStr ''12345''), cnf_headers = Some 2,
      cnf_url = Some ''https://api.net/users/'', cnf_params = Some JNull,
      cnf_endpoint = Some ''users''\<rparr>"
proof -
  have h: "\<not> truthy (JNum 0)"
    by simp
  have v: "fresh example_world = 2" "ep_url example_users = ''https://api.net/users/''"
    "ep_name example_users = ''users''"
    by (simp_all add: example_world_def example_users_def)
  have "priv_axios (fst (post example_client example_users (JStr ''12345'') (JNum 0) example_world)) =
     \<lparr>cnf_method = JStr ''post'', cnf_data = Some (JStr ''12345''),
      cnf_headers = Some (fresh example_world),
      cnf_url = Some (ep_url example_users), cnf_params = Some JNull,
      cnf_endpoint = Some (ep_name example_users)\<rparr>"
    using post_put_falsy_second_argument [OF h] by blast
  then show ?thesis
    using h by (simp only: v) simp
qed

section \<open>Observers of a request made through an Endpoint\<close>

text \<open>
  Claim C1 says that every lifecycle transition of a Request created by an Endpoint verb
  is notified to the owning Client's observable and reaches every registered observer. The
  code hands \<open>this.api\<close> to the Request, a property that a GRestEndpoint does not have (its
  field is \<open>_api\<close>), so the Request holds no observable. On the example, with the observer
  \<open>"ui"\<close> registered, \<open>users.get()\<close> calls the transport once and notifies nobody: not at
  \<open>pending\<close>, and neither when the transport resolves with any response \<open>r\<close> nor when it
  rejects with any failure \<open>e\<close>.
\<close>

theorem endpoint_request_notifies_nobody:
  "(case get example_client example_users JUndefined example_world of
      (rq, w1) \<Rightarrow>
        observers w1 = [''ui''] \<and>
        sent w1 = [priv_axios rq] \<and>
        priv_observable rq = None \<and>
        notified w1 = [] \<and> received w1 = [] \<and>
        (case then_handler r rq w1 of (x, rq2, w2) \<Rightarrow> notified w2 = [] \<and> received w2 = []) \<and>
        (case catch_handler e rq w1 of (x, rq3, w3) \<Rightarrow> notified w3 = [] \<and> received w3 = []))"
proof -
  define rq where
    "rq = fst (http example_client example_users (cnf_of_method ''get'') JUndefined example_world)"
  define w1 where
    "w1 = snd (http example_client example_users (cnf_of_method ''get'') JUndefined example_world)"
  have g: "get example_client example_users JUndefined example_world = (rq, w1)"
    by (simp add: get_def priv_getDel_def rq_def w1_def)
  have o: "priv_observable rq = None"
    by (simp add: rq_def http_request)
  have n: "notified w1 = []" "received w1 = []" "observers w1 = [''ui'']"
    by (simp_all add: w1_def http_world http_headers_fields example_values)
  have s: "sent w1 = [priv_axios rq]"
    by (simp add: w1_def rq_def http_world http_request http_headers_fields example_values)
  show ?thesis
    using then_handler_no_observable [OF o, of r w1] catch_handler_no_observable [OF o, of e w1]
    by (simp add: g o n s split_beta)
qed

section \<open>The Authorization header\<close>

text \<open>
  Claim C2, as stated, fails: the guard is \<open>if (auth && !headers.Authorization)\<close>, a test
  of truthiness. A caller who passes the explicit header \<open>Authorization: ""\<close> while the
  Client's \<open>authorization\<close> is \<open>"Bearer X"\<close> gets \<open>"Bearer X"\<close> dispatched, not the explicit
  value.
\<close>

theorem empty_explicit_authorization_is_replaced:
  "(case new_object [''Authorization'' \<mapsto> JStr ''''] example_world of
      (h, w) \<Rightarrow>
        (case http example_client example_users ((cnf_of_method ''get'')\<lparr>cnf_headers := Some h\<rparr>)
                JUndefined w of
           (rq, w1) \<Rightarrow>
             object_at w h ''Authorization'' = Some (JStr '''') \<and>
             header_of w1 (priv_axios rq) ''Authorization'' = Some (JStr ''Bearer X'') \<and>
             header_of w1 (priv_axios rq) ''Authorization'' \<noteq> object_at w h ''Authorization''))"
proof -
  define w where "w = snd (new_object [''Authorization'' \<mapsto> JStr ''''] example_world)"
  define cnf where "cnf = (cnf_of_method ''get'')\<lparr>cnf_headers := Some 2\<rparr>"
  have n: "new_object [''Authorization'' \<mapsto> JStr ''''] example_world = (2, w)"
    by (simp add: w_def new_object_def example_values)
  have a: "c_headers example_client < fresh w" "allocated w cnf"
    by (simp_all add: w_def cnf_def allocated_def example_values)
  have v: "object_at w 0 = Map.empty" "object_at w 2 = [''Authorization'' \<mapsto> JStr '''']"
    "cnf_headers cnf = Some 2"
    by (simp_all add: w_def cnf_def example_values)
  have "header_of (snd (http example_client example_users cnf JUndefined w))
          (priv_axios (fst (http example_client example_users cnf JUndefined w))) ''Authorization'' =
        Some (JStr ''Bearer X'')"
    by (simp add: header_of_http [OF a] dispatched_def merged_def given_headers_def lookup_def
        v example_values)
  moreover have "object_at w 2 ''Authorization'' = Some (JStr '''')"
    by (simp add: v)
  ultimately show ?thesis
    by (simp add: n cnf_def split_beta)
qed

text \<open>
  Claim C2, amended. For every call of \<open>http\<close> (the Client's headers object and the
  caller's, if any, being objects of the store): if the Client's \<open>authorization\<close> is truthy
  and the merged headers hold no truthy \<open>Authorization\<close> (none at all, or a falsy value
  such as \<open>null\<close> or \<open>""\<close>), the dispatched \<open>Authorization\<close> header is the Client's
  \<open>authorization\<close>; if the caller passed an explicit truthy \<open>Authorization\<close> header, the
  dispatched header is that value, whatever the Client's \<open>authorization\<close> is; and in every
  case but the first the dispatched entry is the merged one.
\<close>

theorem authorization_header_of_request:
  assumes "c_headers api < fresh w" and "allocated w axiosCnf"
  shows "(truthy (c_authorization api) \<and>
            \<not> truthy (lookup (merged api axiosCnf w) ''Authorization'') \<longrightarrow>
          header_of (snd (http api this axiosCnf q w))
            (priv_axios (fst (http api this axiosCnf q w))) ''Authorization'' =
          Some (c_authorization api)) \<and>
         (\<forall>v. given_headers axiosCnf w ''Authorization'' = Some v \<and> truthy v \<longrightarrow>
          header_of (snd (http api this axiosCnf q w))
            (priv_axios (fst (http api this axiosCnf q w))) ''Authorization'' =
          Some v) \<and>
         (\<not> truthy (c_authorization api) \<or>
            truthy (lookup (merged api axiosCnf w) ''Authorization'') \<longrightarrow>
          header_of (snd (http api this axiosCnf q w))
            (priv_axios (fst (http api this axiosCnf q w))) ''Authorization'' =
          merged api axiosCnf w ''Authorization'')"
  using assms
  by (auto simp add: header_of_http dispatched_def Let_def lookup_def merged_def)

text \<open>
  On the example (\<open>authorization = "Bearer X"\<close>): \<open>users.get()\<close> is dispatched with
  \<open>"Bearer X"\<close>, and a call whose configuration carries \<open>Authorization: "abc"\<close> is
  dispatched with \<open>"abc"\<close>.
\<close>

theorem authorization_header_of_request_witness:
  "c_headers example_client < fresh example_world \<and>
   allocated example_world (cnf_of_method ''get'') \<and>
   truthy (c_authorization example_client) \<and>
   \<not> truthy (lookup (merged example_client (cnf_of_method ''get'') example_world) ''Authorization'') \<and>
   header_of (snd (http example_client example_users (cnf_of_method ''get'') JUndefined example_world))
     (priv_axios (fst (http example_client example_users (cnf_of_method ''get'') JUndefined
        example_world))) ''Authorization'' = Some (JStr ''Bearer X'') \<and>
   allocated (snd (new_object [''Authorization'' \<mapsto> JStr ''abc''] example_world))
     ((cnf_of_method ''post'')\<lparr>cnf_headers := Some 2\<rparr>) \<and>
   given_headers ((cnf_of_method ''post'')\<lparr>cnf_headers := Some 2\<rparr>)
     (snd (new_object [''Authorization'' \<mapsto> JStr ''abc''] example_world)) ''Authorization'' =
     Some (JStr ''abc'') \<and>
   truthy (JStr ''abc'') \<and>
   header_of
     (snd (http example_client example_users ((cnf_of_method ''post'')\<lparr>cnf_headers := Some 2\<rparr>)
        JUndefined (snd (new_object [''Authorization'' \<mapsto> JStr ''abc''] example_world))))
     (priv_axios (fst (http example_client example_users
        ((cnf_of_method ''post'')\<lparr>cnf_headers := Some 2\<rparr>)
        JUndefined (snd (new_object [''Authorization'' \<mapsto> JStr ''abc''] example_world)))))
     ''Authorization'' = Some (JStr ''abc'')"
proof -
  define w where "w = snd (new_object [''Authorization'' \<mapsto> JStr ''abc''] example_world)"
  define cnf where "cnf = (cnf_of_method ''post'')\<lparr>cnf_headers := Some 2\<rparr>"
  have p1: "c_headers example_client < fresh example_world"
    and p2: "allocated example_world (cnf_of_method ''get'')"
    and p3: "truthy (c_authorization example_client)"
    and p4: "\<not> truthy (lookup (merged example_client (cnf_of_method ''get'') example_world)
               ''Authorization'')"
    by (simp_all add: example_values allocated_def cnf_of_method_def merged_def
        given_headers_def lookup_def)
  have q1: "c_headers example_client < fresh w"
    and q2: "allocated w cnf"
    and q3: "given_headers cnf w ''Authorization'' = Some (JStr ''abc'')"
    and q4: "truthy (JStr ''abc'')"
    by (simp_all add: w_def cnf_def example_values allocated_def given_headers_def)
  have c1: "header_of (snd (http example_client example_users (cnf_of_method ''get'') JUndefined
                example_world))
              (priv_axios (fst (http example_client example_users (cnf_of_method ''get'')
                JUndefined example_world))) ''Authorization'' =
            Some (c_authorization example_client)"
    using authorization_header_of_request [OF p1 p2] p3 p4 by blast
  have c2: "header_of (snd (http example_client example_users cnf JUndefined w))
              (priv_axios (fst (http example_client example_users cnf JUndefined w)))
              ''Authorization'' = Some (JStr ''abc'')"
    using authorization_header_of_request [OF q1 q2] q3 q4 by blast
  show ?thesis
    using p1 p2 p3 p4 q2 q3 q4 c1 c2
    unfolding w_def cnf_def
    by (simp only: example_values) simp
qed

section \<open>Registering endpoints\<close>

text \<open>
  Claim C3 says that registering a name again is a no-op for that name, accessor identity
  included, also for names with non-word characters such as \<open>"auth/login"\<close>. The guard of
  the loop, \<open>if (_this[endpoint]) return; //avoid dupes\<close>, looks the raw name up, while
  the accessor is stored under the camelCase key. Calling
  \<open>endpoints(["auth/login", "users"])\<close> twice on a new Client leaves the list of names and
  the accessor \<open>users\<close> as they were, but replaces the accessor \<open>authLogin\<close> by a newly
  constructed Endpoint (allocated at 3, the first one at 1).
\<close>

theorem reregistering_replaces_the_accessor:
  "(case GRest ''https://api.net'' JUndefined initial_world of (c0, w0) \<Rightarrow>
     (case endpoints usual_base (Some [''auth/login'', ''users'']) c0 w0 of
        Inl u \<Rightarrow> False
      | Inr (r1, c1, w1) \<Rightarrow>
          (case endpoints usual_base (Some [''auth/login'', ''users'']) c1 w1 of
             Inl u \<Rightarrow> False
           | Inr (r2, c2, w2) \<Rightarrow>
               c_endpoints c1 = [''auth/login'', ''users''] \<and>
               c_endpoints c2 = [''auth/login'', ''users''] \<and>
               map_option ep_id (c_accessors c1 ''users'') = Some 2 \<and>
               map_option ep_id (c_accessors c2 ''users'') = Some 2 \<and>
               map_option ep_id (c_accessors c1 ''authLogin'') = Some 1 \<and>
               map_option ep_id (c_accessors c2 ''authLogin'') = Some 3 \<and>
               c_accessors c2 ''authLogin'' \<noteq> c_accessors c1 ''authLogin'')))"
  by (simp add: GRest_api_net endpoints_def Array_from_Set_def Set_add_def register_def
      prop_truthy_def grest_methods_def grest_fields_def usual_base_def is_member_def
      camelCase_users camelCase_auth_login GRestEndpoint_def initial_world_def Let_def)

section \<open>The scenario of the README\<close>

text \<open>
  Claim C5. A Client for \<open>"https://api.net"\<close> (any \<open>authorization\<close>), with \<open>"auth/login"\<close>
  registered: the only accessor is \<open>authLogin\<close>, and \<open>authLogin.post({email, pass})\<close> with
  that single argument calls the transport once, with method \<open>"post"\<close>, url
  \<open>"https://api.net/auth/login/"\<close> (nothing appended), the body \<open>{email, pass}\<close>, and a
  \<open>params\<close> field that is \<open>null\<close>, so that no query parameter is attached. The inherited
  members are any \<open>base\<close> that has no truthy member \<open>auth/login\<close> and no member \<open>authLogin\<close>.
\<close>

theorem auth_login_post_scenario:
  assumes "base ''auth/login'' \<noteq> Some True" and "base ''authLogin'' = None"
  shows "(case GRest ''https://api.net'' auth initial_world of (c0, w0) \<Rightarrow>
          (case endpoints base (Some [''auth/login'']) c0 w0 of
             Inl u \<Rightarrow> False
           | Inr (r, c1, w1) \<Rightarrow>
               (case c_accessors c1 ''authLogin'' of
                  None \<Rightarrow> False
                | Some e \<Rightarrow>
                    dom (c_accessors c1) = {''authLogin''} \<and>
                    (case post c1 e (JObj [(''email'', email), (''pass'', pass)]) JUndefined w1 of
                       (rq, w2) \<Rightarrow>
                         priv_axios rq =
                           \<lparr>cnf_method = JStr ''post'',
                            cnf_data = Some (JObj [(''email'', email), (''pass'', pass)]),
                            cnf_headers = Some 2,
                            cnf_url = Some ''https://api.net/auth/login/'',
                            cnf_params = Some JNull,
                            cnf_endpoint = Some ''auth/login''\<rparr> \<and>
                         sent w2 = [priv_axios rq]))))"
  using assms
  apply (simp add: GRest_api_net endpoints_def Array_from_Set_def Set_add_def register_def
      prop_truthy_def grest_methods_def grest_fields_def is_member_def camelCase_auth_login
      GRestEndpoint_def initial_world_def split_beta)
  apply (simp add: post_def priv_postPut_def http_request http_world http_headers_fields
      http_config_object cnf_of_method_data_def cnf_of_method_def)
  done

theorem auth_login_post_scenario_witness:
  "usual_base ''auth/login'' \<noteq> Some True \<and> usual_base ''authLogin'' = None \<and>
   (case GRest ''https://api.net'' JUndefined initial_world of (c0, w0) \<Rightarrow>
      (case endpoints usual_base (Some [''auth/login'']) c0 w0 of
         Inl u \<Rightarrow> False
       | Inr (r, c1, w1) \<Rightarrow>
           (case c_accessors c1 ''authLogin'' of
              None \<Rightarrow> False
            | Some e \<Rightarrow>
                dom (c_accessors c1) = {''authLogin''} \<and>
                (case post c1 e (JObj [(''email'', JStr ''a@b.c''), (''pass'', JStr ''secret'')])
                        JUndefined w1 of
                   (rq, w2) \<Rightarrow>
                     priv_axios rq =
                       \<lparr>cnf_method = JStr ''post'',
                        cnf_data =
                          Some (JObj [(''email'', JStr ''a@b.c''), (''pass'', JStr ''secret'')]),
                        cnf_headers = Some 2,
                        cnf_url = Some ''https://api.net/auth/login/'',
                        cnf_params = Some JNull,
                        cnf_endpoint = Some ''auth/login''\<rparr> \<and>
                     sent w2 = [priv_axios rq]))))"
proof -
  have b: "usual_base ''auth/login'' \<noteq> Some True" "usual_base ''authLogin'' = None"
    by (simp_all add: usual_base_def)
  from auth_login_post_scenario [OF b, where auth = JUndefined and email = "JStr ''a@b.c''"
      and pass = "JStr ''secret''"] b
  show ?thesis
    by blast
qed

section \<open>The header merge is a copy\<close>

text \<open>
  Claim C9. For every call of \<open>http\<close> (the Client's headers object and the caller's, if
  any, being objects of the store): after the call the Client's global headers object has
  the entries it had before, and so has every object that existed before; the headers of
  the configuration are a new object, at an address unused before; and for every key but
  the two that \<open>http\<close> sets itself (\<open>X-Requested-With\<close>, \<open>Authorization\<close>) the new object
  holds the caller's entry where the caller gave one and the global entry otherwise.
\<close>

theorem http_leaves_global_headers_unchanged:
  assumes "c_headers api < fresh w" and "allocated w axiosCnf"
  shows "object_at (snd (http api this axiosCnf q w)) (c_headers api) =
           object_at w (c_headers api) \<and>
         (\<forall>a < fresh w. object_at (snd (http api this axiosCnf q w)) a = object_at w a) \<and>
         cnf_headers (priv_axios (fst (http api this axiosCnf q w))) = Some (fresh w) \<and>
         (\<forall>k. k \<noteq> ''X-Requested-With'' \<and> k \<noteq> ''Authorization'' \<longrightarrow>
            header_of (snd (http api this axiosCnf q w))
              (priv_axios (fst (http api this axiosCnf q w))) k =
            (case given_headers axiosCnf w k of
               Some v \<Rightarrow> Some v
             | None \<Rightarrow> object_at w (c_headers api) k))"
proof -
  have unchanged: "\<forall>a < fresh w. object_at (snd (http api this axiosCnf q w)) a = object_at w a"
    by (simp add: http_frame)
  have copy: "cnf_headers (priv_axios (fst (http api this axiosCnf q w))) = Some (fresh w)"
    by (simp add: http_request http_config_def Let_def)
  have overlay:
    "header_of (snd (http api this axiosCnf q w))
       (priv_axios (fst (http api this axiosCnf q w))) k =
     (case given_headers axiosCnf w k of
        Some v \<Rightarrow> Some v
      | None \<Rightarrow> object_at w (c_headers api) k)"
    if "k \<noteq> ''X-Requested-With''" and "k \<noteq> ''Authorization''" for k
    using that
    by (simp add: header_of_http [OF assms] dispatched_def Let_def merged_def map_add_def)
  from unchanged assms(1) copy overlay show ?thesis
    by blast
qed

text \<open>
  On the example, with \<open>Accept-version: "3.2"\<close> in the global headers and a call that
  passes \<open>Accept-version: "4.0"\<close> and \<open>One-Time-Header: "1"\<close>: the global object still holds
  \<open>"3.2"\<close> only, and the configuration holds the caller's two entries.
\<close>

theorem http_leaves_global_headers_unchanged_witness:
  "c_headers example_client < fresh versioned_world \<and>
   allocated versioned_world versioned_cnf \<and>
   object_at (snd (http example_client example_users versioned_cnf JUndefined versioned_world))
     (c_headers example_client) = [''Accept-version'' \<mapsto> JStr ''3.2''] \<and>
   cnf_headers (priv_axios
     (fst (http example_client example_users versioned_cnf JUndefined versioned_world))) = Some 3 \<and>
   header_of (snd (http example_client example_users versioned_cnf JUndefined versioned_world))
     (priv_axios (fst (http example_client example_users versioned_cnf JUndefined versioned_world)))
     ''Accept-version'' = Some (JStr ''4.0'') \<and>
   header_of (snd (http example_client example_users versioned_cnf JUndefined versioned_world))
     (priv_axios (fst (http example_client example_users versioned_cnf JUndefined versioned_world)))
     ''One-Time-Header'' = Some (JStr ''1'')"
proof -
  have v: "c_headers example_client = 0" "fresh versioned_world = 3"
    "object_at versioned_world 0 = [''Accept-version'' \<mapsto> JStr ''3.2'']"
    "given_headers versioned_cnf versioned_world =
       [''Accept-version'' \<mapsto> JStr ''4.0'', ''One-Time-Header'' \<mapsto> JStr ''1'']"
    by (simp_all add: versioned_world_def versioned_cnf_def given_headers_def example_values)
  have p: "c_headers example_client < fresh versioned_world"
    "allocated versioned_world versioned_cnf"
    by (simp_all add: v allocated_def versioned_cnf_def)
  note t = http_leaves_global_headers_unchanged [OF p, of example_users JUndefined]
  have a: "object_at (snd (http example_client example_users versioned_cnf JUndefined
              versioned_world)) (c_headers example_client) =
           object_at versioned_world (c_headers example_client)"
    by (rule t [THEN conjunct1])
  have b: "cnf_headers (priv_axios
             (fst (http example_client example_users versioned_cnf JUndefined versioned_world))) =
           Some (fresh versioned_world)"
    by (rule t [THEN conjunct2, THEN conjunct2, THEN conjunct1])
  note o = t [THEN conjunct2, THEN conjunct2, THEN conjunct2, rule_format]
  have c: "header_of (snd (http example_client example_users versioned_cnf JUndefined
              versioned_world))
            (priv_axios (fst (http example_client example_users versioned_cnf JUndefined
              versioned_world))) ''Accept-version'' =
           (case given_headers versioned_cnf versioned_world ''Accept-version'' of
              Some v \<Rightarrow> Some v
            | None \<Rightarrow> object_at versioned_world (c_headers example_client) ''Accept-version'')"
    by (rule o) simp
  have d: "header_of (snd (http example_client example_users versioned_cnf JUndefined
              versioned_world))
            (priv_axios (fst (http example_client example_users versioned_cnf JUndefined
              versioned_world))) ''One-Time-Header'' =
           (case given_headers versioned_cnf versioned_world ''One-Time-Header'' of
              Some v \<Rightarrow> Some v
            | None \<Rightarrow> object_at versioned_world (c_headers example_client) ''One-Time-Header'')"
    by (rule o) simp
  show ?thesis
    using p a b c d by (simp add: v)
qed

section \<open>Two names with one accessor key\<close>

text \<open>
  Claim C4 says that when two distinct raw names give the same camelCase key and are
  registered in order, the accessor under that key afterwards is the Endpoint of the name
  registered first: the second registration does not overwrite it. The code does
  otherwise. On a new Client, \<open>endpoints(["auth/login", "auth-login"])\<close>: the two names
  differ, both give the key \<open>authLogin\<close>, the call returns normally, and the accessor
  \<open>authLogin\<close> afterwards is the Endpoint of \<open>"auth-login"\<close>, the name registered second,
  not the Endpoint of \<open>"auth/login"\<close>. The guard \<open>if (_this[endpoint]) return; //avoid dupes\<close>
  reads the property called by the raw name \<open>"auth-login"\<close>, which the Client does not
  have, where the assignment \<open>_this[camelCase] = ...\<close> writes the key; this is the guard
  that lets a second registration of \<open>"auth/login"\<close> replace its own accessor.
\<close>

theorem second_colliding_name_overwrites:
  "(case GRest ''https://api.net'' JUndefined initial_world of (c0, w0) \<Rightarrow>
     (case endpoints usual_base (Some [''auth/login'', ''auth-login'']) c0 w0 of
        Inl u \<Rightarrow> False
      | Inr (r1, c1, w1) \<Rightarrow>
          ''auth/login'' \<noteq> ''auth-login'' \<and>
          camelCase ''auth/login'' = ''authLogin'' \<and>
          camelCase ''auth-login'' = ''authLogin'' \<and>
          map_option ep_name (c_accessors c1 ''authLogin'') = Some ''auth-login'' \<and>
          map_option ep_name (c_accessors c1 ''authLogin'') \<noteq> Some ''auth/login''))"
  by (simp add: GRest_api_net endpoints_def Array_from_Set_def Set_add_def register_def
      prop_truthy_def grest_methods_def grest_fields_def usual_base_def is_member_def
      camelCase_auth_dash_login camelCase_auth_login GRestEndpoint_def initial_world_def Let_def)

section \<open>Removing a global header\<close>

text \<open>
  Claim C6. For every header key \<open>K\<close> and every value \<open>"v"\<close>, the global headers being an
  object of the store: \<open>headers({K: "v"})\<close> sets \<open>K\<close>, and a following \<open>headers({K: null})\<close>
  removes \<open>K\<close> from the Client's global headers. The merged headers of a request
  configuration built afterwards are the object of
  \<open>Object.assign({}, api.headers(), axiosCnf.headers || {})\<close>, the global headers overlaid
  by the headers the caller passed in that request: they hold for \<open>K\<close> what the caller
  passed for \<open>K\<close> in that request and nothing else, so \<open>K\<close> is absent from them whenever
  the caller passes no \<open>K\<close>. A request leaves the global headers without \<open>K\<close>, so the same
  holds for the requests after it. The set mode of \<open>headers\<close> copies the entries of the
  given map over the global ones and then deletes every entry whose value is \<open>null\<close> or
  \<open>undefined\<close>. The last part says the same of the merge in any world in which the global
  headers have no \<open>K\<close>.
\<close>

theorem null_header_is_removed:
  assumes "c_headers this < fresh w"
  shows
   "(case new_object [K \<mapsto> JStr v] w of (m1, w1) \<Rightarrow>
      case headers (Some m1) this w1 of (r1, w2) \<Rightarrow>
      case new_object [K \<mapsto> JNull] w2 of (m2, w3) \<Rightarrow>
      case headers (Some m2) this w3 of (r2, w4) \<Rightarrow>
         r1 = Ret_this \<and> r2 = Ret_this \<and>
         object_at w2 (c_headers this) K = Some (JStr v) \<and>
         object_at w4 (c_headers this) K = None \<and>
         (\<forall>cnf. allocated w4 cnf \<longrightarrow>
            (case http_merge this cnf w4 of (hs, w5) \<Rightarrow> object_at w5 hs = merged this cnf w4) \<and>
            merged this cnf w4 K = given_headers cnf w4 K \<and>
            (given_headers cnf w4 K = None \<longrightarrow> merged this cnf w4 K = None)) \<and>
         (\<forall>cnf q ep. object_at (snd (http this ep cnf q w4)) (c_headers this) K = None)) \<and>
    (\<forall>m k. object_at (snd (headers (Some m) this w)) (c_headers this) k =
       (case (object_at w (c_headers this) ++ object_at w m) k of
          None \<Rightarrow> None
        | Some x \<Rightarrow> if x = JNull \<or> x = JUndefined then None else Some x)) \<and>
    (\<forall>cnf. allocated w cnf \<and> object_at w (c_headers this) K = None \<longrightarrow>
       (case http_merge this cnf w of (hs, w') \<Rightarrow> object_at w' hs = merged this cnf w) \<and>
       merged this cnf w K = given_headers cnf w K \<and>
       (given_headers cnf w K = None \<longrightarrow> merged this cnf w K = None))"
proof -
  have a: "c_headers this \<noteq> fresh w" "c_headers this \<noteq> Suc (fresh w)"
    using assms by simp_all
  have merge: "(case http_merge this cnf u of (hs, u') \<Rightarrow> object_at u' hs = merged this cnf u) \<and>
       merged this cnf u K = given_headers cnf u K \<and>
       (given_headers cnf u K = None \<longrightarrow> merged this cnf u K = None)"
    if "c_headers this < fresh u" and "allocated u cnf \<and> object_at u (c_headers this) K = None"
    for cnf u
  proof -
    have "object_at (snd (http_merge this cnf u)) (fst (http_merge this cnf u)) =
        merged this cnf u"
      using that by (intro http_merge_object) simp_all
    moreover have "merged this cnf u K = given_headers cnf u K"
      using that(2) by (simp add: merged_def map_add_def split: option.splits)
    ultimately show ?thesis
      by (simp add: split_beta)
  qed
  define m1 where "m1 = fst (new_object [K \<mapsto> JStr v] w)"
  define w1 where "w1 = snd (new_object [K \<mapsto> JStr v] w)"
  define r1 where "r1 = fst (headers (Some m1) this w1)"
  define w2 where "w2 = snd (headers (Some m1) this w1)"
  define m2 where "m2 = fst (new_object [K \<mapsto> JNull] w2)"
  define w3 where "w3 = snd (new_object [K \<mapsto> JNull] w2)"
  define r2 where "r2 = fst (headers (Some m2) this w3)"
  define w4 where "w4 = snd (headers (Some m2) this w3)"
  note defs = w4_def r2_def w3_def m2_def w2_def r1_def w1_def m1_def
  have r: "r1 = Ret_this" "r2 = Ret_this"
    by (simp_all add: r1_def r2_def headers_set_fields)
  have g2: "object_at w2 (c_headers this) K = Some (JStr v)"
    using a by (simp add: w2_def w1_def m1_def object_at_headers_set drop_nullish_apply)
  have f4: "c_headers this < fresh w4"
    using assms by (simp add: defs headers_set_fields)
  have g4: "object_at w4 (c_headers this) K = None"
    by (simp add: w4_def object_at_headers_set drop_nullish_apply m2_def w3_def)
  have m4: "\<forall>cnf. allocated w4 cnf \<longrightarrow>
            (case http_merge this cnf w4 of (hs, w5) \<Rightarrow> object_at w5 hs = merged this cnf w4) \<and>
            merged this cnf w4 K = given_headers cnf w4 K \<and>
            (given_headers cnf w4 K = None \<longrightarrow> merged this cnf w4 K = None)"
  proof (intro allI impI)
    fix cnf
    assume "allocated w4 cnf"
    then have "allocated w4 cnf \<and> object_at w4 (c_headers this) K = None"
      using g4 by simp
    then show "(case http_merge this cnf w4 of (hs, w5) \<Rightarrow> object_at w5 hs = merged this cnf w4) \<and>
            merged this cnf w4 K = given_headers cnf w4 K \<and>
            (given_headers cnf w4 K = None \<longrightarrow> merged this cnf w4 K = None)"
      by (rule merge [OF f4])
  qed
  have h4: "\<forall>cnf q ep. object_at (snd (http this ep cnf q w4)) (c_headers this) K = None"
    using g4 by (simp add: http_frame [OF f4])
  have first: "(case new_object [K \<mapsto> JStr v] w of (m1, w1) \<Rightarrow>
      case headers (Some m1) this w1 of (r1, w2) \<Rightarrow>
      case new_object [K \<mapsto> JNull] w2 of (m2, w3) \<Rightarrow>
      case headers (Some m2) this w3 of (r2, w4) \<Rightarrow>
         r1 = Ret_this \<and> r2 = Ret_this \<and>
         object_at w2 (c_headers this) K = Some (JStr v) \<and>
         object_at w4 (c_headers this) K = None \<and>
         (\<forall>cnf. allocated w4 cnf \<longrightarrow>
            (case http_merge this cnf w4 of (hs, w5) \<Rightarrow> object_at w5 hs = merged this cnf w4) \<and>
            merged this cnf w4 K = given_headers cnf w4 K \<and>
            (given_headers cnf w4 K = None \<longrightarrow> merged this cnf w4 K = None)) \<and>
         (\<forall>cnf q ep. object_at (snd (http this ep cnf q w4)) (c_headers this) K = None))"
    unfolding split_beta
    using r [unfolded defs] g2 [unfolded defs] g4 [unfolded defs] m4 [unfolded defs split_beta]
      h4 [unfolded defs]
    by (intro conjI)
  have second: "\<forall>m k. object_at (snd (headers (Some m) this w)) (c_headers this) k =
       (case (object_at w (c_headers this) ++ object_at w m) k of
          None \<Rightarrow> None
        | Some x \<Rightarrow> if x = JNull \<or> x = JUndefined then None else Some x)"
    by (simp add: object_at_headers_set drop_nullish_apply)
  have third: "\<forall>cnf. allocated w cnf \<and> object_at w (c_headers this) K = None \<longrightarrow>
       (case http_merge this cnf w of (hs, w') \<Rightarrow> object_at w' hs = merged this cnf w) \<and>
       merged this cnf w K = given_headers cnf w K \<and>
       (given_headers cnf w K = None \<longrightarrow> merged this cnf w K = None)"
    by (intro allI impI) (rule merge [OF assms])
  from first second third show ?thesis
    by (intro conjI)
qed

text \<open>
  On the example, for \<open>K = "Accept-version"\<close>: set to \<open>"3.2"\<close>, then removed; the
  configuration \<open>{method: "get"}\<close> passes no headers, and its merged headers, built after
  the removal, have no \<open>Accept-version\<close>.
\<close>

theorem null_header_is_removed_witness:
  "c_headers example_client < fresh example_world \<and>
   (case new_object [''Accept-version'' \<mapsto> JStr ''3.2''] example_world of (m1, w1) \<Rightarrow>
      case headers (Some m1) example_client w1 of (r1, w2) \<Rightarrow>
      case new_object [''Accept-version'' \<mapsto> JNull] w2 of (m2, w3) \<Rightarrow>
      case headers (Some m2) example_client w3 of (r2, w4) \<Rightarrow>
         r1 = Ret_this \<and> r2 = Ret_this \<and>
         object_at w2 (c_headers example_client) ''Accept-version'' = Some (JStr ''3.2'') \<and>
         object_at w4 (c_headers example_client) ''Accept-version'' = None \<and>
         allocated w4 (cnf_of_method ''get'') \<and>
         given_headers (cnf_of_method ''get'') w4 ''Accept-version'' = None \<and>
         (case http_merge example_client (cnf_of_method ''get'') w4 of (hs, w5) \<Rightarrow>
            object_at w5 hs = merged example_client (cnf_of_method ''get'') w4) \<and>
         merged example_client (cnf_of_method ''get'') w4 ''Accept-version'' = None) \<and>
   allocated example_world (cnf_of_method ''get'') \<and>
   object_at example_world (c_headers example_client) ''Accept-version'' = None \<and>
   given_headers (cnf_of_method ''get'') example_world ''Accept-version'' = None \<and>
   merged example_client (cnf_of_method ''get'') example_world ''Accept-version'' = None"
proof -
  have p: "c_headers example_client < fresh example_world"
    by (simp add: example_values)
  note t = null_header_is_removed [OF p, where K = "''Accept-version''" and v = "''3.2''"]
  have al: "allocated u (cnf_of_method ''get'')"
    and gv: "given_headers (cnf_of_method ''get'') u ''Accept-version'' = None" for u
    by (simp_all add: allocated_def cnf_of_method_def given_headers_def)
  have g: "object_at example_world (c_headers example_client) ''Accept-version'' = None"
    by (simp add: example_values)
  have h: "allocated example_world (cnf_of_method ''get'') \<and>
       object_at example_world (c_headers example_client) ''Accept-version'' = None"
    using al g by (intro conjI)
  have c: "merged example_client (cnf_of_method ''get'') example_world ''Accept-version'' = None"
    by (rule t [THEN conjunct2, THEN conjunct2, rule_format, OF h, THEN conjunct2,
          THEN conjunct2, rule_format, OF gv])
  note s = t [THEN conjunct1, unfolded split_beta]
  note s1 = s [THEN conjunct1]
  note s2 = s [THEN conjunct2, THEN conjunct1]
  note s3 = s [THEN conjunct2, THEN conjunct2, THEN conjunct1]
  note s4 = s [THEN conjunct2, THEN conjunct2, THEN conjunct2, THEN conjunct1]
  note s5 = s [THEN conjunct2, THEN conjunct2, THEN conjunct2, THEN conjunct2, THEN conjunct1,
      rule_format, OF al]
  note s6 = s5 [THEN conjunct1]
  note s7 = s5 [THEN conjunct2, THEN conjunct2, rule_format, OF gv]
  have chain: "(case new_object [''Accept-version'' \<mapsto> JStr ''3.2''] example_world of (m1, w1) \<Rightarrow>
      case headers (Some m1) example_client w1 of (r1, w2) \<Rightarrow>
      case new_object [''Accept-version'' \<mapsto> JNull] w2 of (m2, w3) \<Rightarrow>
      case headers (Some m2) example_client w3 of (r2, w4) \<Rightarrow>
         r1 = Ret_this \<and> r2 = Ret_this \<and>
         object_at w2 (c_headers example_client) ''Accept-version'' = Some (JStr ''3.2'') \<and>
         object_at w4 (c_headers example_client) ''Accept-version'' = None \<and>
         allocated w4 (cnf_of_method ''get'') \<and>
         given_headers (cnf_of_method ''get'') w4 ''Accept-version'' = None \<and>
         (case http_merge example_client (cnf_of_method ''get'') w4 of (hs, w5) \<Rightarrow>
            object_at w5 hs = merged example_client (cnf_of_method ''get'') w4) \<and>
         merged example_client (cnf_of_method ''get'') w4 ''Accept-version'' = None)"
    unfolding split_beta
    using s1 s2 s3 s4 al gv s6 s7
    by (intro conjI)
  from p chain al g gv c show ?thesis
    by (intro conjI)
qed

section \<open>Exceptions thrown by queued callbacks\<close>

lemma watched_values:
  "priv_res watched_request = None"
  "priv_err watched_request = None"
  "priv_onOk watched_request = []"
  "priv_onErr watched_request = []"
  "priv_observable watched_request = Some Client_ref"
  "msg_status (priv_obsMsg watched_request) = Some ''pending''"
  "notified watched_world = [priv_obsMsg watched_request]"
  "observers watched_world = [''ui'']"
  "received watched_world = [(''ui'', priv_obsMsg watched_request)]"
  "invoked watched_world = []"
  "console watched_world = []"
  "sent watched_world = [cnf_of_method ''get'']"
  by (simp_all add: watched_request_def watched_world_def GRestRequest_def again_def
      priv_notify_def notify_def axios_def Let_def example_values)

lemma callback_values:
  "cb_body cb_one args = Returns (JStr ''changed'')"
  "cb_body cb_two args = Returns JUndefined"
  "cb_body cb_boom args = Throws (JStr ''boom'')"
  "cb_id cb_one = 1" "cb_id cb_two = 2" "cb_id cb_boom = 3"
  by (simp_all add: cb_one_def cb_two_def cb_boom_def)

text \<open>
  Claim C7, as stated, fails on both paths. On the watched Request with \<open>cb_boom\<close> and
  \<open>cb_two\<close> queued by \<open>.ok(cb_boom).ok(cb_two)\<close>, a success calls \<open>cb_boom\<close> only:
  \<open>cb_two\<close> is never called. With the same two callbacks queued by
  \<open>.fail(cb_boom).fail(cb_two)\<close>, a failure calls \<open>cb_boom\<close> only, its exception leaves
  the handler, the queue is not cleared and no \<open>fail\<close> message is sent: the only message
  ever sent is \<open>pending\<close>.
\<close>

theorem throwing_callback_stops_delivery:
  "(case chain (ok cb_boom watched_request watched_world) (ok cb_two) of
      (x, rq1, w1) \<Rightarrow>
        (case then_handler example_response rq1 w1 of
           (y, rq2, w2) \<Rightarrow>
             priv_onOk rq1 = [cb_boom, cb_two] \<and>
             invoked w2 = [(cb_id cb_boom, ok_args example_response)] \<and>
             (cb_id cb_two, ok_args example_response) \<notin> set (invoked w2))) \<and>
   (case chain (fail cb_boom watched_request watched_world) (fail cb_two) of
      (x, rq1, w1) \<Rightarrow>
        (case catch_handler example_failure rq1 w1 of
           (y, rq3, w3) \<Rightarrow>
             priv_onErr rq1 = [cb_boom, cb_two] \<and>
             y = Some (JStr ''boom'') \<and>
             invoked w3 = [(cb_id cb_boom, [normalize_error example_failure])] \<and>
             priv_onErr rq3 = [cb_boom, cb_two] \<and>
             map msg_status (notified w3) = [Some ''pending'']))"
  by (simp add: chain_def ok_unresolved fail_unresolved watched_values then_handler_eq
      catch_handler_eq priv_notify_keeps calls_def callback_values split_beta)

text \<open>
  Claim C7, amended: the delivery on transport success. Whatever the queued callbacks do,
  no exception leaves the handler passed to \<open>.then\<close>; the result is cached and the queue
  is cleared; the callbacks called are those up to and including the first one that throws
  (the ones queued after it are not called), each with the same arguments; the exception is
  logged; and the \<open>ok\<close> message is sent to the observable, if the Request has one, and
  reaches every observer.
\<close>

theorem success_delivery_isolates_exceptions:
  "(case then_handler r this w of
      (x, this', w') \<Rightarrow>
        x = None \<and>
        priv_res this' =
          Some (res_data r, JObj [(''status'', res_status r), (''headers'', res_headers r)]) \<and>
        priv_onOk this' = [] \<and>
        invoked w' = invoked w @ calls (called (priv_onOk this) (ok_args r)) (ok_args r) \<and>
        console w' = console w @
          (case thrown (priv_onOk this) (ok_args r) of None \<Rightarrow> [] | Some e \<Rightarrow> [e]) \<and>
        notified w' = notified w @
          (case priv_observable this of None \<Rightarrow> [] | Some obs \<Rightarrow> [message this ''ok'']) \<and>
        received w' = received w @
          (case priv_observable this of
             None \<Rightarrow> []
           | Some obs \<Rightarrow> map (\<lambda>observer. (observer, message this ''ok'')) (observers w))) \<and>
   (\<forall>fs g gs e.
      (\<forall>f \<in> set fs. \<exists>v. cb_body f (ok_args r) = Returns v) \<and>
      cb_body g (ok_args r) = Throws e \<longrightarrow>
      called (fs @ g # gs) (ok_args r) = fs @ [g] \<and>
      thrown (fs @ g # gs) (ok_args r) = Some e)"
proof -
  have a: "(case then_handler r this w of
      (x, this', w') \<Rightarrow>
        x = None \<and>
        priv_res this' =
          Some (res_data r, JObj [(''status'', res_status r), (''headers'', res_headers r)]) \<and>
        priv_onOk this' = [] \<and>
        invoked w' = invoked w @ calls (called (priv_onOk this) (ok_args r)) (ok_args r) \<and>
        console w' = console w @
          (case thrown (priv_onOk this) (ok_args r) of None \<Rightarrow> [] | Some e \<Rightarrow> [e]) \<and>
        notified w' = notified w @
          (case priv_observable this of None \<Rightarrow> [] | Some obs \<Rightarrow> [message this ''ok'']) \<and>
        received w' = received w @
          (case priv_observable this of
             None \<Rightarrow> []
           | Some obs \<Rightarrow> map (\<lambda>observer. (observer, message this ''ok'')) (observers w)))"
    by (cases "priv_observable this") (simp_all add: then_handler_eq priv_notify_eq message_def)
  have b: "\<forall>fs g gs e.
      (\<forall>f \<in> set fs. \<exists>v. cb_body f (ok_args r) = Returns v) \<and>
      cb_body g (ok_args r) = Throws e \<longrightarrow>
      called (fs @ g # gs) (ok_args r) = fs @ [g] \<and>
      thrown (fs @ g # gs) (ok_args r) = Some e"
  proof (intro allI impI)
    fix fs gs :: "callback list" and g :: callback and e :: jsval
    assume "(\<forall>f \<in> set fs. \<exists>v. cb_body f (ok_args r) = Returns v) \<and>
      cb_body g (ok_args r) = Throws e"
    then show "called (fs @ g # gs) (ok_args r) = fs @ [g] \<and>
      thrown (fs @ g # gs) (ok_args r) = Some e"
      using called_until_throw [of fs "ok_args r" g e gs] by blast
  qed
  from a b show ?thesis
    by (rule conjI)
qed

text \<open>
  The watched Request with \<open>cb_one\<close>, \<open>cb_boom\<close>, \<open>cb_two\<close> queued, on success: \<open>cb_one\<close>
  and \<open>cb_boom\<close> are called, \<open>cb_two\<close> is not, \<open>"boom"\<close> is logged, and the observer
  \<open>"ui"\<close> receives the \<open>ok\<close> message after the \<open>pending\<close> one.
\<close>

theorem success_delivery_isolates_exceptions_witness:
  "cb_body cb_one (ok_args example_response) = Returns (JStr ''changed'') \<and>
   cb_body cb_boom (ok_args example_response) = Throws (JStr ''boom'') \<and>
   called [cb_one, cb_boom, cb_two] (ok_args example_response) = [cb_one, cb_boom] \<and>
   thrown [cb_one, cb_boom, cb_two] (ok_args example_response) = Some (JStr ''boom'') \<and>
   (case then_handler example_response
           (watched_request\<lparr>priv_onOk := [cb_one, cb_boom, cb_two]\<rparr>) watched_world of
      (x, this', w') \<Rightarrow>
        x = None \<and> priv_onOk this' = [] \<and>
        invoked w' = [(1, ok_args example_response), (3, ok_args example_response)] \<and>
        console w' = [JStr ''boom''] \<and>
        map msg_status (notified w') = [Some ''pending'', Some ''ok''] \<and>
        map fst (received w') = [''ui'', ''ui''])"
proof -
  note t = success_delivery_isolates_exceptions [where r = example_response
      and this = "watched_request\<lparr>priv_onOk := [cb_one, cb_boom, cb_two]\<rparr>"
      and w = watched_world]
  have h: "(\<forall>f \<in> set [cb_one]. \<exists>v. cb_body f (ok_args example_response) = Returns v) \<and>
      cb_body cb_boom (ok_args example_response) = Throws (JStr ''boom'')"
    by (simp add: callback_values)
  have c: "called ([cb_one] @ cb_boom # [cb_two]) (ok_args example_response) = [cb_one] @ [cb_boom] \<and>
      thrown ([cb_one] @ cb_boom # [cb_two]) (ok_args example_response) = Some (JStr ''boom'')"
    by (rule t [THEN conjunct2, rule_format, OF h])
  then have c': "called [cb_one, cb_boom, cb_two] (ok_args example_response) = [cb_one, cb_boom]"
    "thrown [cb_one, cb_boom, cb_two] (ok_args example_response) = Some (JStr ''boom'')"
    by simp_all
  have d: "(case then_handler example_response
           (watched_request\<lparr>priv_onOk := [cb_one, cb_boom, cb_two]\<rparr>) watched_world of
      (x, this', w') \<Rightarrow>
        x = None \<and> priv_onOk this' = [] \<and>
        invoked w' = [(1, ok_args example_response), (3, ok_args example_response)] \<and>
        console w' = [JStr ''boom''] \<and>
        map msg_status (notified w') = [Some ''pending'', Some ''ok''] \<and>
        map fst (received w') = [''ui'', ''ui''])"
    using t [THEN conjunct1]
    by (simp add: split_beta c' watched_values calls_def callback_values message_def)
  from c' d show ?thesis
    by (simp add: callback_values)
qed

section \<open>ok and fail on a settled and on a pending Request\<close>

lemma settled_values:
  "priv_res resolved_request =
     Some (JObj [(''id'', JNum 7)], JObj [(''status'', JNum 200), (''headers'', JObj [])])"
  "priv_err rejected_request = Some (JObj [(''message'', JStr ''timeout'')])"
  "normalize_error example_failure = JObj [(''message'', JStr ''timeout'')]"
  "ok_args example_response =
     [JObj [(''id'', JNum 7)], JObj [(''status'', JNum 200), (''headers'', JObj [])]]"
  by (simp_all add: resolved_request_def rejected_request_def then_handler_eq catch_handler_eq
      watched_values priv_notify_eq normalize_error_def js_or_def example_response_def
      example_failure_def ok_args_def)

text \<open>
  Claim C8. For every Request, callback and world:
  \<^item> \<open>ok(fn)\<close> on a Request that holds a result calls \<open>fn\<close> at once with the cached
    \<open>(data, {status, headers})\<close>, calls the transport no further time, leaves the Request
    as it is and returns it (unless \<open>fn\<close> throws, the one way in which \<open>ok\<close> does not
    return);
  \<^item> \<open>ok(fn)\<close> on a Request that holds no result appends \<open>fn\<close> to the queue, calls
    nothing, and returns the Request;
  \<^item> \<open>.ok(cb1).ok(cb2)\<close>, where \<open>cb1\<close> returns normally, calls \<open>cb1\<close> and then \<open>cb2\<close>,
    each with the same original data and whatever \<open>cb1\<close> returns: at once on a Request
    that holds a result, and when the transport resolves on a new Request;
  \<^item> \<open>fail\<close> does the same with the cached error and the transport's rejection.
\<close>

theorem ok_fail_deliver_cached_outcome:
  "(\<forall>d m. priv_res this = Some (d, m) \<longrightarrow>
      (case ok fn this w of
         (x, this', w') \<Rightarrow>
           this' = this \<and> invoked w' = invoked w @ [(cb_id fn, [d, m])] \<and> sent w' = sent w \<and>
           x = (case cb_body fn [d, m] of Returns v \<Rightarrow> None | Throws e \<Rightarrow> Some e))) \<and>
   (priv_res this = None \<longrightarrow>
      ok fn this w = (None, this\<lparr>priv_onOk := priv_onOk this @ [fn]\<rparr>, w)) \<and>
   (\<forall>d m v. priv_res this = Some (d, m) \<and> cb_body cb1 [d, m] = Returns v \<longrightarrow>
      (case chain (ok cb1 this w) (ok cb2) of
         (x, this', w') \<Rightarrow>
           this' = this \<and> sent w' = sent w \<and>
           invoked w' = invoked w @ [(cb_id cb1, [d, m]), (cb_id cb2, [d, m])])) \<and>
   (\<forall>v. priv_res this = None \<and> priv_onOk this = [] \<and> cb_body cb1 (ok_args r) = Returns v \<longrightarrow>
      (case chain (ok cb1 this w) (ok cb2) of
         (x, this1, w1) \<Rightarrow>
           x = None \<and> w1 = w \<and> priv_onOk this1 = [cb1, cb2] \<and>
           (case then_handler r this1 w1 of
              (y, this2, w2) \<Rightarrow>
                sent w2 = sent w \<and>
                invoked w2 = invoked w @ [(cb_id cb1, ok_args r), (cb_id cb2, ok_args r)]))) \<and>
   (\<forall>err. priv_err this = Some err \<longrightarrow>
      (case fail fn this w of
         (x, this', w') \<Rightarrow>
           this' = this \<and> invoked w' = invoked w @ [(cb_id fn, [err])] \<and> sent w' = sent w \<and>
           x = (case cb_body fn [err] of Returns v \<Rightarrow> None | Throws e \<Rightarrow> Some e))) \<and>
   (priv_err this = None \<longrightarrow>
      fail fn this w = (None, this\<lparr>priv_onErr := priv_onErr this @ [fn]\<rparr>, w)) \<and>
   (\<forall>err v. priv_err this = Some err \<and> cb_body cb1 [err] = Returns v \<longrightarrow>
      (case chain (fail cb1 this w) (fail cb2) of
         (x, this', w') \<Rightarrow>
           this' = this \<and> sent w' = sent w \<and>
           invoked w' = invoked w @ [(cb_id cb1, [err]), (cb_id cb2, [err])])) \<and>
   (\<forall>v. priv_err this = None \<and> priv_onErr this = [] \<and>
        cb_body cb1 [normalize_error e] = Returns v \<longrightarrow>
      (case chain (fail cb1 this w) (fail cb2) of
         (x, this1, w1) \<Rightarrow>
           x = None \<and> w1 = w \<and> priv_onErr this1 = [cb1, cb2] \<and>
           (case catch_handler e this1 w1 of
              (y, this2, w2) \<Rightarrow>
                sent w2 = sent w \<and>
                invoked w2 =
                  invoked w @ [(cb_id cb1, [normalize_error e]), (cb_id cb2, [normalize_error e])])))"
proof -
  have ok1: "(case ok fn this w of
         (x, this', w') \<Rightarrow>
           this' = this \<and> invoked w' = invoked w @ [(cb_id fn, [d, m])] \<and> sent w' = sent w \<and>
           x = (case cb_body fn [d, m] of Returns v \<Rightarrow> None | Throws e \<Rightarrow> Some e))"
    if "priv_res this = Some (d, m)" for d m
    by (simp add: ok_resolved [OF that])
  have ok2: "ok fn this w = (None, this\<lparr>priv_onOk := priv_onOk this @ [fn]\<rparr>, w)"
    if "priv_res this = None"
    by (rule ok_unresolved [OF that])
  have ok3: "(case chain (ok cb1 this w) (ok cb2) of
         (x, this', w') \<Rightarrow>
           this' = this \<and> sent w' = sent w \<and>
           invoked w' = invoked w @ [(cb_id cb1, [d, m]), (cb_id cb2, [d, m])])"
    if "priv_res this = Some (d, m) \<and> cb_body cb1 [d, m] = Returns v" for d m v
    using that by (simp add: chain_def ok_resolved)
  have ok4: "(case chain (ok cb1 this w) (ok cb2) of
         (x, this1, w1) \<Rightarrow>
           x = None \<and> w1 = w \<and> priv_onOk this1 = [cb1, cb2] \<and>
           (case then_handler r this1 w1 of
              (y, this2, w2) \<Rightarrow>
                sent w2 = sent w \<and>
                invoked w2 = invoked w @ [(cb_id cb1, ok_args r), (cb_id cb2, ok_args r)]))"
    if "priv_res this = None \<and> priv_onOk this = [] \<and> cb_body cb1 (ok_args r) = Returns v" for v
    using that
    by (simp add: chain_def ok_unresolved then_handler_eq priv_notify_keeps calls_def split_beta
        split: completion.splits)
  have f1: "(case fail fn this w of
         (x, this', w') \<Rightarrow>
           this' = this \<and> invoked w' = invoked w @ [(cb_id fn, [err])] \<and> sent w' = sent w \<and>
           x = (case cb_body fn [err] of Returns v \<Rightarrow> None | Throws e \<Rightarrow> Some e))"
    if "priv_err this = Some err" for err
    by (simp add: fail_resolved [OF that])
  have f2: "fail fn this w = (None, this\<lparr>priv_onErr := priv_onErr this @ [fn]\<rparr>, w)"
    if "priv_err this = None"
    by (rule fail_unresolved [OF that])
  have f3: "(case chain (fail cb1 this w) (fail cb2) of
         (x, this', w') \<Rightarrow>
           this' = this \<and> sent w' = sent w \<and>
           invoked w' = invoked w @ [(cb_id cb1, [err]), (cb_id cb2, [err])])"
    if "priv_err this = Some err \<and> cb_body cb1 [err] = Returns v" for err v
    using that by (simp add: chain_def fail_resolved)
  have f4: "(case chain (fail cb1 this w) (fail cb2) of
         (x, this1, w1) \<Rightarrow>
           x = None \<and> w1 = w \<and> priv_onErr this1 = [cb1, cb2] \<and>
           (case catch_handler e this1 w1 of
              (y, this2, w2) \<Rightarrow>
                sent w2 = sent w \<and>
                invoked w2 =
                  invoked w @ [(cb_id cb1, [normalize_error e]), (cb_id cb2, [normalize_error e])]))"
    if "priv_err this = None \<and> priv_onErr this = [] \<and>
        cb_body cb1 [normalize_error e] = Returns v" for v
    using that
    by (simp add: chain_def fail_unresolved catch_handler_eq priv_notify_keeps calls_def
        split_beta split: completion.splits option.splits)
  show ?thesis
    apply (intro conjI allI impI)
           apply (erule ok1)
          apply (erule ok2)
         apply (erule ok3)
        apply (erule ok4)
       apply (erule f1)
      apply (erule f2)
     apply (erule f3)
    apply (erule f4)
    done
qed

text \<open>
  On the watched Request: while it is pending, \<open>.ok(cb_one).ok(cb_two)\<close> queues both, and the
  response is delivered to \<open>cb_one\<close> and then to \<open>cb_two\<close>, although \<open>cb_one\<close> returns
  \<open>"changed"\<close>; once it has resolved, both are called at once with the cached result and
  the transport has still been called once. The same holds for \<open>fail\<close>.
\<close>

theorem ok_fail_deliver_cached_outcome_witness:
  "priv_res watched_request = None \<and> priv_onOk watched_request = [] \<and>
   priv_err watched_request = None \<and> priv_onErr watched_request = [] \<and>
   cb_body cb_one (ok_args example_response) = Returns (JStr ''changed'') \<and>
   cb_body cb_one [normalize_error example_failure] = Returns (JStr ''changed'') \<and>
   ok cb_one watched_request watched_world =
     (None, watched_request\<lparr>priv_onOk := [cb_one]\<rparr>, watched_world) \<and>
   fail cb_one watched_request watched_world =
     (None, watched_request\<lparr>priv_onErr := [cb_one]\<rparr>, watched_world) \<and>
   (case chain (ok cb_one watched_request watched_world) (ok cb_two) of
      (x, this1, w1) \<Rightarrow>
        x = None \<and> w1 = watched_world \<and> priv_onOk this1 = [cb_one, cb_two] \<and>
        (case then_handler example_response this1 w1 of
           (y, this2, w2) \<Rightarrow>
             sent w2 = [cnf_of_method ''get''] \<and>
             invoked w2 = [(1, ok_args example_response), (2, ok_args example_response)])) \<and>
   (case chain (fail cb_one watched_request watched_world) (fail cb_two) of
      (x, this1, w1) \<Rightarrow>
        x = None \<and> w1 = watched_world \<and> priv_onErr this1 = [cb_one, cb_two] \<and>
        (case catch_handler example_failure this1 w1 of
           (y, this2, w2) \<Rightarrow>
             sent w2 = [cnf_of_method ''get''] \<and>
             invoked w2 = [(1, [normalize_error example_failure]),
                           (2, [normalize_error example_failure])])) \<and>
   priv_res resolved_request =
     Some (JObj [(''id'', JNum 7)], JObj [(''status'', JNum 200), (''headers'', JObj [])]) \<and>
   (case ok cb_two resolved_request watched_world of
      (x, this', w') \<Rightarrow>
        this' = resolved_request \<and> x = None \<and> sent w' = [cnf_of_method ''get''] \<and>
        invoked w' = [(2, ok_args example_response)]) \<and>
   (case chain (ok cb_one resolved_request watched_world) (ok cb_two) of
      (x, this', w') \<Rightarrow>
        this' = resolved_request \<and> sent w' = [cnf_of_method ''get''] \<and>
        invoked w' = [(1, ok_args example_response), (2, ok_args example_response)]) \<and>
   priv_err rejected_request = Some (JObj [(''message'', JStr ''timeout'')]) \<and>
   (case fail cb_two rejected_request watched_world of
      (x, this', w') \<Rightarrow>
        this' = rejected_request \<and> x = None \<and> sent w' = [cnf_of_method ''get''] \<and>
        invoked w' = [(2, [normalize_error example_failure])]) \<and>
   (case chain (fail cb_one rejected_request watched_world) (fail cb_two) of
      (x, this', w') \<Rightarrow>
        this' = rejected_request \<and> sent w' = [cnf_of_method ''get''] \<and>
        invoked w' = [(1, [normalize_error example_failure]),
                      (2, [normalize_error example_failure])])"
proof -
  note u = ok_fail_deliver_cached_outcome [where this = watched_request and w = watched_world
      and fn = cb_one and ?cb1.0 = cb_one and ?cb2.0 = cb_two and r = example_response
      and e = example_failure]
  note s = ok_fail_deliver_cached_outcome [where this = resolved_request and w = watched_world
      and fn = cb_two and ?cb1.0 = cb_one and ?cb2.0 = cb_two]
  note f = ok_fail_deliver_cached_outcome [where this = rejected_request and w = watched_world
      and fn = cb_two and ?cb1.0 = cb_one and ?cb2.0 = cb_two]
  have h: "priv_res watched_request = None" "priv_onOk watched_request = []"
    "priv_err watched_request = None" "priv_onErr watched_request = []"
    "cb_body cb_one (ok_args example_response) = Returns (JStr ''changed'')"
    "cb_body cb_one [normalize_error example_failure] = Returns (JStr ''changed'')"
    by (simp_all add: watched_values callback_values)
  have u2: "ok cb_one watched_request watched_world =
     (None, watched_request\<lparr>priv_onOk := priv_onOk watched_request @ [cb_one]\<rparr>, watched_world)"
    by (rule u [THEN conjunct2, THEN conjunct1, rule_format, OF h(1)])
  have u4: "(case chain (ok cb_one watched_request watched_world) (ok cb_two) of
      (x, this1, w1) \<Rightarrow>
        x = None \<and> w1 = watched_world \<and> priv_onOk this1 = [cb_one, cb_two] \<and>
        (case then_handler example_response this1 w1 of
           (y, this2, w2) \<Rightarrow>
             sent w2 = sent watched_world \<and>
             invoked w2 = invoked watched_world @
               [(cb_id cb_one, ok_args example_response), (cb_id cb_two, ok_args example_response)]))"
    by (rule u [THEN conjunct2, THEN conjunct2, THEN conjunct2, THEN conjunct1, rule_format])
      (simp add: h)
  have u6: "fail cb_one watched_request watched_world =
     (None, watched_request\<lparr>priv_onErr := priv_onErr watched_request @ [cb_one]\<rparr>, watched_world)"
    by (rule u [THEN conjunct2, THEN conjunct2, THEN conjunct2, THEN conjunct2, THEN conjunct2,
          THEN conjunct1, rule_format, OF h(3)])
  have u8: "(case chain (fail cb_one watched_request watched_world) (fail cb_two) of
      (x, this1, w1) \<Rightarrow>
        x = None \<and> w1 = watched_world \<and> priv_onErr this1 = [cb_one, cb_two] \<and>
        (case catch_handler example_failure this1 w1 of
           (y, this2, w2) \<Rightarrow>
             sent w2 = sent watched_world \<and>
             invoked w2 = invoked watched_world @
               [(cb_id cb_one, [normalize_error example_failure]),
                (cb_id cb_two, [normalize_error example_failure])]))"
    by (rule u [THEN conjunct2, THEN conjunct2, THEN conjunct2, THEN conjunct2, THEN conjunct2,
          THEN conjunct2, THEN conjunct2, rule_format])
      (simp add: h)
  have s1: "(case ok cb_two resolved_request watched_world of
      (x, this', w') \<Rightarrow>
        this' = resolved_request \<and>
        invoked w' = invoked watched_world @ [(cb_id cb_two, ok_args example_response)] \<and>
        sent w' = sent watched_world \<and>
        x = (case cb_body cb_two (ok_args example_response) of
               Returns v \<Rightarrow> None | Throws e \<Rightarrow> Some e))"
    unfolding settled_values(4)
    by (rule s [THEN conjunct1, rule_format]) (rule settled_values(1))
  have s3: "(case chain (ok cb_one resolved_request watched_world) (ok cb_two) of
      (x, this', w') \<Rightarrow>
        this' = resolved_request \<and> sent w' = sent watched_world \<and>
        invoked w' = invoked watched_world @
          [(cb_id cb_one, ok_args example_response), (cb_id cb_two, ok_args example_response)])"
    unfolding settled_values(4)
    by (rule s [THEN conjunct2, THEN conjunct2, THEN conjunct1, rule_format])
      (simp add: settled_values(1) callback_values)
  have f5: "(case fail cb_two rejected_request watched_world of
      (x, this', w') \<Rightarrow>
        this' = rejected_request \<and>
        invoked w' = invoked watched_world @ [(cb_id cb_two, [normalize_error example_failure])] \<and>
        sent w' = sent watched_world \<and>
        x = (case cb_body cb_two [normalize_error example_failure] of
               Returns v \<Rightarrow> None | Throws e \<Rightarrow> Some e))"
    unfolding settled_values(3)
    by (rule f [THEN conjunct2, THEN conjunct2, THEN conjunct2, THEN conjunct2, THEN conjunct1,
          rule_format]) (rule settled_values(2))
  have f7: "(case chain (fail cb_one rejected_request watched_world) (fail cb_two) of
      (x, this', w') \<Rightarrow>
        this' = rejected_request \<and> sent w' = sent watched_world \<and>
        invoked w' = invoked watched_world @
          [(cb_id cb_one, [normalize_error example_failure]),
           (cb_id cb_two, [normalize_error example_failure])])"
    unfolding settled_values(3)
    by (rule f [THEN conjunct2, THEN conjunct2, THEN conjunct2, THEN conjunct2, THEN conjunct2,
          THEN conjunct2, THEN conjunct1, rule_format])
      (simp add: settled_values(2) callback_values)
  have u2': "ok cb_one watched_request watched_world =
     (None, watched_request\<lparr>priv_onOk := [cb_one]\<rparr>, watched_world)"
    using u2 by (simp add: watched_values)
  have u6': "fail cb_one watched_request watched_world =
     (None, watched_request\<lparr>priv_onErr := [cb_one]\<rparr>, watched_world)"
    using u6 by (simp add: watched_values)
  have u4': "(case chain (ok cb_one watched_request watched_world) (ok cb_two) of
      (x, this1, w1) \<Rightarrow>
        x = None \<and> w1 = watched_world \<and> priv_onOk this1 = [cb_one, cb_two] \<and>
        (case then_handler example_response this1 w1 of
           (y, this2, w2) \<Rightarrow>
             sent w2 = [cnf_of_method ''get''] \<and>
             invoked w2 = [(1, ok_args example_response), (2, ok_args example_response)]))"
    using u4 by (simp add: watched_values callback_values)
  have u8': "(case chain (fail cb_one watched_request watched_world) (fail cb_two) of
      (x, this1, w1) \<Rightarrow>
        x = None \<and> w1 = watched_world \<and> priv_onErr this1 = [cb_one, cb_two] \<and>
        (case catch_handler example_failure this1 w1 of
           (y, this2, w2) \<Rightarrow>
             sent w2 = [cnf_of_method ''get''] \<and>
             invoked w2 = [(1, [normalize_error example_failure]),
                           (2, [normalize_error example_failure])]))"
    using u8 by (simp add: watched_values callback_values)
  have s1': "(case ok cb_two resolved_request watched_world of
      (x, this', w') \<Rightarrow>
        this' = resolved_request \<and> x = None \<and> sent w' = [cnf_of_method ''get''] \<and>
        invoked w' = [(2, ok_args example_response)])"
    using s1 by (simp add: watched_values callback_values split_beta)
  have s3': "(case chain (ok cb_one resolved_request watched_world) (ok cb_two) of
      (x, this', w') \<Rightarrow>
        this' = resolved_request \<and> sent w' = [cnf_of_method ''get''] \<and>
        invoked w' = [(1, ok_args example_response), (2, ok_args example_response)])"
    using s3 by (simp add: watched_values callback_values)
  have f5': "(case fail cb_two rejected_request watched_world of
      (x, this', w') \<Rightarrow>
        this' = rejected_request \<and> x = None \<and> sent w' = [cnf_of_method ''get''] \<and>
        invoked w' = [(2, [normalize_error example_failure])])"
    using f5 by (simp add: watched_values callback_values split_beta)
  have f7': "(case chain (fail cb_one rejected_request watched_world) (fail cb_two) of
      (x, this', w') \<Rightarrow>
        this' = rejected_request \<and> sent w' = [cnf_of_method ''get''] \<and>
        invoked w' = [(1, [normalize_error example_failure]),
                      (2, [normalize_error example_failure])])"
    using f7 by (simp add: watched_values callback_values)
  from h u2' u6' u4' u8' settled_values(1) s1' s3' settled_values(2) f5' f7' show ?thesis
    by (intro conjI)
qed

end
